theory Spec2Isabelle
  imports Main "HOL-Library.Word" "HOL-Library.Code_Target_Numeral"
begin

section \<open>The journal store: csync_journal.c\<close>

text \<open>
  The journal module talks to three things outside itself: the file system (open, read,
  unlink), SQLite (sqlite3_open, sqlite3_prepare, sqlite3_step, sqlite3_finalize,
  sqlite3_last_insert_rowid) and the c_lib helpers (c_copy, c_streq, c_strlist_*).
  Their answers are not decided by the module, so they are the fields of an environment
  record \<open>env\<close>; what the calls change is kept in a \<open>world\<close> record that every function
  takes and returns.  The answers of sqlite3_prepare, sqlite3_step and sqlite3_finalize are
  indexed by the number of calls made so far, which lets an environment answer with any
  sequence of result codes (a lock that clears after some attempts, or never).
\<close>

subsection \<open>Result codes of sqlite3.h\<close>

abbreviation (input) SQLITE_OK :: int where "SQLITE_OK \<equiv> 0"
abbreviation (input) SQLITE_ERROR :: int where "SQLITE_ERROR \<equiv> 1"
abbreviation (input) SQLITE_BUSY :: int where "SQLITE_BUSY \<equiv> 5"
abbreviation (input) SQLITE_SCHEMA :: int where "SQLITE_SCHEMA \<equiv> 17"
abbreviation (input) SQLITE_MISUSE :: int where "SQLITE_MISUSE \<equiv> 21"
abbreviation (input) SQLITE_ROW :: int where "SQLITE_ROW \<equiv> 100"
abbreviation (input) SQLITE_DONE :: int where "SQLITE_DONE \<equiv> 101"

subsection \<open>Environment, world and context\<close>

record env =
  open_ok :: "string \<Rightarrow> bool"
  read_ok :: "string \<Rightarrow> bool"
  unlink_ok :: "string \<Rightarrow> bool"
  copy_ok :: "string \<Rightarrow> string \<Rightarrow> bool"
  alloc_ok :: "nat \<Rightarrow> bool"
  open_rc :: "string \<Rightarrow> string option \<Rightarrow> int"
  prepare_rc :: "nat \<Rightarrow> string \<Rightarrow> int"
  column_count :: "nat \<Rightarrow> nat"
  step_rc :: "nat \<Rightarrow> int"
  column_text :: "nat \<Rightarrow> nat \<Rightarrow> string option"
  step_write :: "nat \<Rightarrow> string option \<Rightarrow> string option"
  finalize_rc :: "nat \<Rightarrow> int"
  last_insert_rowid :: "nat \<Rightarrow> 64 word"

text \<open>
  \<open>open_ok p\<close>, \<open>read_ok p\<close>, \<open>unlink_ok p\<close>: whether open(2) for reading, read(2) and
  unlink(2) succeed on an existing file \<open>p\<close>.  \<open>copy_ok src dst\<close>: whether c_copy can write
  the copy.  \<open>alloc_ok k\<close>: whether the \<open>k\<close>-th allocation succeeds.  \<open>open_rc p c\<close>: the
  result code of sqlite3_open on path \<open>p\<close> whose file has content \<open>c\<close> (\<open>None\<close>: no such
  file).  \<open>prepare_rc k s\<close>, \<open>step_rc k\<close>, \<open>finalize_rc k\<close>: the result code of the \<open>k\<close>-th
  call of sqlite3_prepare (on statement \<open>s\<close>), sqlite3_step and sqlite3_finalize.
  \<open>column_count k\<close>: the number of result columns of the statement compiled by the \<open>k\<close>-th
  sqlite3_prepare.  \<open>column_text k i\<close>: sqlite3_column_text of column \<open>i\<close> after the \<open>k\<close>-th
  sqlite3_step (\<open>None\<close> is the NULL pointer, returned for an SQL NULL).  \<open>step_write k\<close>: what
  the \<open>k\<close>-th sqlite3_step does to the file of the connection it runs on.
  \<open>last_insert_rowid k\<close>: the connection's last insert row id (an sqlite3_int64) after
  \<open>k\<close> calls of sqlite3_step.
\<close>

record world =
  files :: "string \<Rightarrow> string option"
  unlinks :: "string list"
  allocs :: nat
  prepares :: nat
  steps :: nat
  finalizes :: nat
  slept :: nat

text \<open>
  \<open>files\<close> maps a path to the bytes of the file there; \<open>unlinks\<close> lists the paths unlink(2)
  was called on; the counters count the calls made so far and \<open>slept\<close> adds up the
  microseconds spent in usleep.
\<close>

record CSYNC =
  journal :: "string option"
  journal_exists :: int

text \<open>
  Of the context only the two fields the module touches are kept.  The connection handle
  \<open>ctx->journal\<close> is modelled by the path the connection was opened on; \<open>None\<close> is the NULL
  handle.
\<close>

record c_strlist =
  vector :: "string list"
  strlist_size :: nat

subsection \<open>The calls out of the module\<close>

definition usleep :: "nat \<Rightarrow> world \<Rightarrow> world" where
  "usleep us w = w\<lparr>slept := slept w + us\<rparr>"

definition unlink :: "env \<Rightarrow> string \<Rightarrow> world \<Rightarrow> world" where
  "unlink env p w =
     w\<lparr>unlinks := unlinks w @ [p],
       files := (if unlink_ok env p then (files w)(p := None) else files w)\<rparr>"

text \<open>
  sqlite3_open creates the database file when it is not there (the default open flags
  are read-write and create); a fresh database file is empty.
\<close>

definition sqlite3_open :: "env \<Rightarrow> string \<Rightarrow> world \<Rightarrow> int \<times> world" where
  "sqlite3_open env p w =
     (let rc = open_rc env p (files w p)
      in (rc, if rc = SQLITE_OK \<and> files w p = None then w\<lparr>files := (files w)(p \<mapsto> [])\<rparr> else w))"

text \<open>A NULL connection handle makes sqlite3_prepare answer SQLITE_MISUSE.\<close>

definition sqlite3_prepare :: "env \<Rightarrow> CSYNC \<Rightarrow> string \<Rightarrow> world \<Rightarrow> int \<times> world" where
  "sqlite3_prepare env ctx statement w =
     ((if journal ctx = None then SQLITE_MISUSE else prepare_rc env (prepares w) statement),
      w\<lparr>prepares := prepares w + 1\<rparr>)"

text \<open>Running the statement may write, and it writes to the file of the connection only.\<close>

definition sqlite3_step :: "env \<Rightarrow> CSYNC \<Rightarrow> world \<Rightarrow> int \<times> world" where
  "sqlite3_step env ctx w =
     (step_rc env (steps w),
      w\<lparr>steps := steps w + 1,
        files := (case journal ctx of
                    None \<Rightarrow> files w
                  | Some p \<Rightarrow> (files w)(p := step_write env (steps w) (files w p)))\<rparr>)"

definition sqlite3_finalize :: "env \<Rightarrow> world \<Rightarrow> int \<times> world" where
  "sqlite3_finalize env w = (finalize_rc env (finalizes w), w\<lparr>finalizes := finalizes w + 1\<rparr>)"

text \<open>
  sqlite3_last_insert_rowid reads a field of the connection: on a NULL handle the call is
  outside SQLite's contract and nothing is known of its result (\<open>None\<close>).
\<close>

definition sqlite3_last_insert_rowid :: "env \<Rightarrow> CSYNC \<Rightarrow> world \<Rightarrow> 64 word option" where
  "sqlite3_last_insert_rowid env ctx w =
     (case journal ctx of None \<Rightarrow> None | Some p \<Rightarrow> Some (last_insert_rowid env (steps w)))"

text \<open>
  Modelled from the spec: c_lib's string list (\<open>c_strlist_t\<close>, c_strlist_new) is not among
  the sources.  A list is "a flat ordered sequence" of strings with room for
  \<open>strlist_size\<close> of them; its count is the length of \<open>vector\<close>.  c_strlist_new gives an
  empty list, or NULL when the size is 0 or the allocation fails; the placeholder of a
  failed query is \<open>c_strlist_new(1)\<close>, a list with room for one string and none in it.
\<close>

definition c_strlist_new :: "env \<Rightarrow> nat \<Rightarrow> world \<Rightarrow> c_strlist option \<times> world" where
  "c_strlist_new env n w =
     (if n = 0 then (None, w)
      else ((if alloc_ok env (allocs w) then Some \<lparr>vector = [], strlist_size = n\<rparr> else None),
            w\<lparr>allocs := allocs w + 1\<rparr>))"

text \<open>
  Modelled from the spec: c_strlist_add of c_lib is not among the sources.  It appends a
  copy of the string at the end of the list ("column text values, in order") and fails,
  leaving the list alone, on a NULL string or a full list.
\<close>

definition c_strlist_add :: "c_strlist \<Rightarrow> string option \<Rightarrow> c_strlist option" where
  "c_strlist_add l s =
     (case s of
        None \<Rightarrow> None
      | Some t \<Rightarrow> if length (vector l) < strlist_size l
                  then Some (l\<lparr>vector := vector l @ [t]\<rparr>) else None)"

text \<open>
  Modelled from the spec: c_streq of c_lib is not among the sources.  It tells whether two
  strings are equal ("if they match the expected format magic").
\<close>

definition c_streq :: "string \<Rightarrow> string \<Rightarrow> bool" where
  "c_streq a b = (a = b)"

text \<open>
  Modelled from the spec: c_copy of c_lib is not among the sources.  It writes the bytes of
  the source file to the destination path ("copy it to a temporary sidecar path with fixed
  permissions") and leaves the source alone; it fails when the source file is missing or
  the copy cannot be written.
\<close>

definition c_copy :: "env \<Rightarrow> string \<Rightarrow> string \<Rightarrow> world \<Rightarrow> int \<times> world" where
  "c_copy env src dst w =
     (case files w src of
        None \<Rightarrow> (- 1, w)
      | Some bytes \<Rightarrow> if copy_ok env src dst
                      then (0, w\<lparr>files := (files w)(dst \<mapsto> bytes)\<rparr>) else (- 1, w))"

subsection \<open>csync_journal_check\<close>

text \<open>
  The parameter \<open>journal\<close> of csync_journal_check and csync_journal_load is called \<open>path\<close>
  here, \<open>journal\<close> being the field of the context.

  \<open>buf\<close> is 16 zero bytes; read(2) puts up to 16 bytes of the file there and the string
  compared with the magic is what \<open>buf\<close> holds up to its first NUL (the terminator the code
  writes at \<open>buf[16]\<close> ends a buffer without one).
\<close>

definition header_string :: "string \<Rightarrow> string" where
  "header_string bytes = takeWhile (\<lambda>c. c \<noteq> CHR 0x00) (take 16 bytes)"

text \<open>The end of csync_journal_check, under its comment "create database".\<close>

definition create_database :: "env \<Rightarrow> string \<Rightarrow> world \<Rightarrow> int \<times> world" where
  "create_database env path w =
     (let (rc, w1) = sqlite3_open env path w
      in if rc = SQLITE_OK then (0, w1) else (- 1, w1))"

definition csync_journal_check :: "env \<Rightarrow> string \<Rightarrow> world \<Rightarrow> int \<times> world" where
  "csync_journal_check env path w =
     (case files w path of
        None \<Rightarrow> create_database env path w
      | Some bytes \<Rightarrow>
          if open_ok env path then
            if read_ok env path then
              if c_streq (header_string bytes) ''SQLite format 3'' then
                (let (rc, w1) = sqlite3_open env path w
                 in if rc = SQLITE_OK then (0, w1)
                    else create_database env path (unlink env path w1))
              else create_database env path (unlink env path w)
            else create_database env path w
          else create_database env path w)"

subsection \<open>csync_journal_query\<close>

text \<open>
  The inner do-while of both csync_journal_query and csync_journal_insert: compile the
  statement, again after 100 msec while the answer is SQLITE_BUSY and the counter, read
  before its increment, is below 120.  It returns the last result code and the counter.
\<close>

function prepare_busy :: "env \<Rightarrow> CSYNC \<Rightarrow> string \<Rightarrow> nat \<Rightarrow> world \<Rightarrow> int \<times> nat \<times> world" where
  "prepare_busy env ctx statement busy_count w =
     (let w1 = (if busy_count \<noteq> 0 then usleep 100000 w else w);
          (err, w2) = sqlite3_prepare env ctx statement w1
      in if err = SQLITE_BUSY \<and> busy_count < 120
         then prepare_busy env ctx statement (busy_count + 1) w2
         else (err, (if err = SQLITE_BUSY then busy_count + 1 else busy_count), w2))"
  by pat_completeness auto
termination
  by (relation "measure (\<lambda>(env, ctx, statement, busy_count, w). 120 - busy_count)") auto

text \<open>
  The \<open>for\<close> over the columns of a row: the text of each column is added to the list, and
  the first c_strlist_add that fails ends it (\<open>None\<close>).
\<close>

fun add_columns :: "(nat \<Rightarrow> string option) \<Rightarrow> nat list \<Rightarrow> c_strlist \<Rightarrow> c_strlist option" where
  "add_columns text [] l = Some l"
| "add_columns text (i # cols) l =
     (case c_strlist_add l (text i) of
        None \<Rightarrow> None
      | Some l' \<Rightarrow> add_columns text cols l')"

text \<open>
  How the \<open>for(;;)\<close> over the rows ends: by one of the two \<open>return NULL\<close>, or by a
  \<open>break\<close> with the last result code, the busy counter and the result pointer.
\<close>

datatype rows_exit = ReturnNull | LoopEnd int nat "c_strlist option"

partial_function (option) query_rows ::
  "env \<Rightarrow> CSYNC \<Rightarrow> nat \<Rightarrow> nat \<Rightarrow> c_strlist option \<Rightarrow> world \<Rightarrow> (rows_exit \<times> world) option" where
  "query_rows env ctx ncols busy_count result w =
     (let row = steps w; (err, w1) = sqlite3_step env ctx w
      in if err = SQLITE_BUSY then
           (if busy_count > 120 then Some (LoopEnd err (busy_count + 1) result, w1)
            else query_rows env ctx ncols (busy_count + 1) result (usleep 100000 w1))
         else if err = SQLITE_DONE \<or> err = SQLITE_ERROR then Some (LoopEnd err busy_count result, w1)
         else (case c_strlist_new env ncols w1 of
                 (None, w2) \<Rightarrow> Some (ReturnNull, w2)
               | (Some l, w2) \<Rightarrow>
                   (case add_columns (column_text env row) [0..<ncols] l of
                      None \<Rightarrow> Some (ReturnNull, w2)
                    | Some l' \<Rightarrow> query_rows env ctx ncols busy_count (Some l') w2)))"

declare query_rows.simps [code]

text \<open>
  One round of the outer do-while after the statement compiled: run the rows, finalize,
  and decide.  \<open>Inl\<close> is a return of the function, \<open>Inr\<close> goes round again with the busy
  counter, the retry counter and the result pointer.
\<close>

definition query_finish ::
  "env \<Rightarrow> nat \<Rightarrow> int \<Rightarrow> nat \<Rightarrow> c_strlist option \<Rightarrow> world
     \<Rightarrow> (c_strlist option \<times> world) + (nat \<times> nat \<times> c_strlist option \<times> world)" where
  "query_finish env retry_count err busy_count result w =
     (let (rc, w1) = sqlite3_finalize env w;
          (result1, w2) = (if err \<noteq> SQLITE_DONE \<and> rc \<noteq> SQLITE_SCHEMA
                           then c_strlist_new env 1 w1 else (result, w1));
          retry_count1 = (if rc = SQLITE_SCHEMA then retry_count + 1 else retry_count);
          (result2, w3) = (if rc = SQLITE_SCHEMA \<and> \<not> retry_count1 < 10
                           then c_strlist_new env 1 w2 else (result1, w2))
      in if rc = SQLITE_SCHEMA \<and> retry_count1 < 10
         then Inr (busy_count, retry_count1, result2, w3)
         else Inl (result2, w3))"

partial_function (option) query_loop ::
  "env \<Rightarrow> CSYNC \<Rightarrow> string \<Rightarrow> nat \<Rightarrow> nat \<Rightarrow> c_strlist option \<Rightarrow> world
     \<Rightarrow> (c_strlist option \<times> world) option" where
  "query_loop env ctx statement busy_count retry_count result w =
     (let (err, busy_count1, w1) = prepare_busy env ctx statement busy_count w
      in if err \<noteq> SQLITE_OK then Some (c_strlist_new env 1 w1)
         else (case query_rows env ctx (column_count env (prepares w1 - 1)) 0 result w1 of
                 None \<Rightarrow> None
               | Some (ReturnNull, w2) \<Rightarrow> Some (None, w2)
               | Some (LoopEnd err2 busy_count2 result2, w2) \<Rightarrow>
                   (case query_finish env retry_count err2 busy_count2 result2 w2 of
                      Inl r \<Rightarrow> Some r
                    | Inr (busy_count3, retry_count3, result3, w3) \<Rightarrow>
                        query_loop env ctx statement busy_count3 retry_count3 result3 w3)))"

declare query_loop.simps [code]

definition csync_journal_query ::
  "env \<Rightarrow> CSYNC \<Rightarrow> string \<Rightarrow> world \<Rightarrow> (c_strlist option \<times> world) option" where
  "csync_journal_query env ctx statement w = query_loop env ctx statement 0 0 None w"

subsection \<open>csync_journal_is_empty and csync_journal_load\<close>

definition csync_journal_is_empty :: "env \<Rightarrow> CSYNC \<Rightarrow> world \<Rightarrow> (int \<times> world) option" where
  "csync_journal_is_empty env ctx w =
     (case csync_journal_query env ctx ''SELECT COUNT(key) FROM metadata LIMIT 1 OFFSET 0;'' w of
        None \<Rightarrow> None
      | Some (result, w1) \<Rightarrow>
          Some ((case result of
                   None \<Rightarrow> 0
                 | Some l \<Rightarrow> if length (vector l) = 0 then 1 else 0), w1))"

text \<open>
  The body of csync_journal_load up to the label \<open>out\<close>: the value of the local \<open>rc\<close>
  there, the context and the world.  \<open>rc\<close> starts as -1, every failing step sets it to -1
  again, and no step sets it to anything else.  asprintf fails when its allocation does.
  sqlite3_open stores a connection for the path it was given into \<open>ctx->journal\<close>, also
  when it fails.
\<close>

definition journal_load_body ::
  "env \<Rightarrow> CSYNC \<Rightarrow> string \<Rightarrow> world \<Rightarrow> (int \<times> CSYNC \<times> world) option" where
  "journal_load_body env ctx path w =
     (let (rc0, w1) = csync_journal_check env path w
      in if rc0 < 0 then Some (- 1, ctx, w1)
         else
           let asprintf_ok = alloc_ok env (allocs w1);
               w2 = w1\<lparr>allocs := allocs w1 + 1\<rparr>;
               journal_tmp = path @ ''.ctmp''
           in if \<not> asprintf_ok then Some (- 1, ctx, w2)
              else
                let (rc1, w3) = c_copy env path journal_tmp w2
                in if rc1 < 0 then Some (- 1, ctx, w3)
                   else
                     let (rc2, w4) = sqlite3_open env journal_tmp w3;
                         ctx1 = ctx\<lparr>journal := Some journal_tmp\<rparr>
                     in if rc2 \<noteq> SQLITE_OK then Some (- 1, ctx1, w4)
                        else (case csync_journal_is_empty env ctx1 w4 of
                                None \<Rightarrow> None
                              | Some (is_empty, w5) \<Rightarrow>
                                  if is_empty \<noteq> 0
                                  then Some (- 1, ctx1\<lparr>journal_exists := 0\<rparr>, w5)
                                  else Some (- 1, ctx1\<lparr>journal_exists := 1\<rparr>, w5)))"

text \<open>After \<open>out\<close> the function frees \<open>journal_tmp\<close> and ends with \<open>return 0\<close>.\<close>

definition csync_journal_load ::
  "env \<Rightarrow> CSYNC \<Rightarrow> string \<Rightarrow> world \<Rightarrow> (int \<times> CSYNC \<times> world) option" where
  "csync_journal_load env ctx path w =
     (case journal_load_body env ctx path w of
        None \<Rightarrow> None
      | Some (rc, ctx1, w1) \<Rightarrow> Some (0, ctx1, w1))"

subsection \<open>csync_journal_insert\<close>

text \<open>
  The \<open>for(;;)\<close> of csync_journal_insert.  After a busy answer below the ceiling the code
  sleeps and falls through the two remaining tests, which a busy code does not pass, so it
  steps again.
\<close>

partial_function (option) insert_rows ::
  "env \<Rightarrow> CSYNC \<Rightarrow> nat \<Rightarrow> world \<Rightarrow> (int \<times> nat \<times> world) option" where
  "insert_rows env ctx busy_count w =
     (let (err, w1) = sqlite3_step env ctx w
      in if err = SQLITE_BUSY then
           (if busy_count > 120 then Some (err, busy_count + 1, w1)
            else insert_rows env ctx (busy_count + 1) (usleep 100000 w1))
         else if err = SQLITE_DONE \<or> err = SQLITE_ERROR then Some (err, busy_count, w1)
         else insert_rows env ctx busy_count w1)"

declare insert_rows.simps [code]

partial_function (option) insert_loop ::
  "env \<Rightarrow> CSYNC \<Rightarrow> string \<Rightarrow> nat \<Rightarrow> nat \<Rightarrow> world \<Rightarrow> world option" where
  "insert_loop env ctx statement busy_count retry_count w =
     (let (err, busy_count1, w1) = prepare_busy env ctx statement busy_count w
      in if err \<noteq> SQLITE_OK then Some w1
         else (case insert_rows env ctx 0 w1 of
                 None \<Rightarrow> None
               | Some (err2, busy_count2, w2) \<Rightarrow>
                   let (rc, w3) = sqlite3_finalize env w2;
                       retry_count1 = (if rc = SQLITE_SCHEMA then retry_count + 1 else retry_count)
                   in if rc = SQLITE_SCHEMA \<and> retry_count1 < 10
                      then insert_loop env ctx statement busy_count2 retry_count1 w3
                      else Some w3))"

declare insert_loop.simps [code]

text \<open>
  The function returns \<open>int\<close>: the 64-bit row id is narrowed to 32 bits by the return
  statement.  The outer \<open>option\<close> is \<open>None\<close> when the row loop never ends; the inner one is
  \<open>None\<close> when the row id was read through a NULL handle.
\<close>

definition csync_journal_insert ::
  "env \<Rightarrow> CSYNC \<Rightarrow> string \<Rightarrow> world \<Rightarrow> (int option \<times> world) option" where
  "csync_journal_insert env ctx statement w =
     (if statement = [] then Some (Some 0, w)
      else (case insert_loop env ctx statement 0 0 w of
              None \<Rightarrow> None
            | Some w1 \<Rightarrow>
                Some (map_option (\<lambda>rowid. sint (ucast rowid :: 32 word))
                        (sqlite3_last_insert_rowid env ctx w1), w1)))"

section \<open>The command line client: cmd.cpp\<close>

subsection \<open>Strings of Qt\<close>

definition startsWith :: "string \<Rightarrow> string \<Rightarrow> bool" where
  "startsWith s p = (take (length p) s = p)"

definition endsWith :: "string \<Rightarrow> string \<Rightarrow> bool" where
  "endsWith s p = startsWith (rev s) (rev p)"

fun contains :: "string \<Rightarrow> string \<Rightarrow> bool" where
  "contains [] p = (p = [])"
| "contains (c # s) p = (startsWith (c # s) p \<or> contains s p)"

text \<open>\<open>QString::split(sep)\<close> keeps empty parts: a string with \<open>n\<close> separators has \<open>n + 1\<close> parts.\<close>

fun qsplit :: "char \<Rightarrow> string \<Rightarrow> string list" where
  "qsplit sep [] = [[]]"
| "qsplit sep (c # s) =
     (if c = sep then [] # qsplit sep s
      else (case qsplit sep s of
              [] \<Rightarrow> [[c]]
            | part # parts \<Rightarrow> (c # part) # parts))"

text \<open>
  \<open>QString::toInt(&ok)\<close> in base 10: white space around the number is skipped, a sign may
  stand before the digits, and the value has to fit an \<open>int\<close>; otherwise the result is 0 and
  \<open>ok\<close> is false.
\<close>

definition is_space :: "char \<Rightarrow> bool" where
  "is_space c = (c \<in> set [CHR '' '', CHR 0x09, CHR 0x0A, CHR 0x0B, CHR 0x0C, CHR 0x0D])"

definition is_digit :: "char \<Rightarrow> bool" where
  "is_digit c = (c \<in> set ''0123456789'')"

definition digits_value :: "string \<Rightarrow> int" where
  "digits_value ds = foldl (\<lambda>n c. 10 * n + (of_char c - 48)) 0 ds"

definition trimmed :: "string \<Rightarrow> string" where
  "trimmed s = rev (dropWhile is_space (rev (dropWhile is_space s)))"

definition toInt :: "string \<Rightarrow> int \<times> bool" where
  "toInt s =
     (let t = trimmed s;
          negative = (t \<noteq> [] \<and> hd t = CHR ''-'');
          ds = (if t \<noteq> [] \<and> (hd t = CHR ''-'' \<or> hd t = CHR ''+'') then tl t else t);
          v = (if negative then - digits_value ds else digits_value ds)
      in if ds \<noteq> [] \<and> list_all is_digit ds \<and> - (2 ^ 31) \<le> v \<and> v < 2 ^ 31
         then (v, True) else (0, False))"

subsection \<open>Options\<close>

text \<open>
  A \<open>QString\<close> is a \<open>string\<close>; only \<open>proxy\<close> is asked whether it is null, so it is a
  \<open>string option\<close> with \<open>None\<close> for the null string a fresh \<open>CmdOptions\<close> holds.
\<close>

record CmdOptions =
  source_dir :: string
  target_url :: string
  config_directory :: string
  user :: string
  password :: string
  proxy :: "string option"
  silent :: bool
  trustSSL :: bool
  useNetrc :: bool
  interactive :: bool
  exclude :: string

text \<open>
  What the client reads from outside: whether a path exists, the user name and password
  inside the URL, the netrc entry of the host (\<open>None\<close> when netrc cannot be parsed), what
  is typed at the two prompts, and per pass of the sync loop the results of csync_create,
  ne_sock_init and csync_init and the engine's answer to isAnotherSyncNeeded.
\<close>

record cmd_env =
  file_exists :: "string \<Rightarrow> bool"
  url_userName :: string
  url_password :: string
  netrc_login :: "(string \<times> string) option"
  typed_user :: string
  typed_password :: string
  csync_create_rc :: "nat \<Rightarrow> int"
  ne_sock_init_rc :: "nat \<Rightarrow> int"
  csync_init_rc :: "nat \<Rightarrow> int"
  isAnotherSyncNeeded :: "nat \<Rightarrow> bool"

text \<open>
  How parseOptions leaves the process early: \<open>help()\<close> prints the usage and calls
  \<open>exit(1)\<close>; a missing source directory calls \<open>exit(1)\<close>; and \<open>it.peekNext()\<close> on an
  iterator with nothing left reads past the list, which Qt leaves undefined.
\<close>

datatype parse_exit = Usage | NoSourceDir | PeekPastEnd

subsection \<open>parseOptions\<close>

text \<open>The \<open>while (it.hasNext())\<close> loop over the arguments left after the program name.\<close>

fun parse_flags :: "string list \<Rightarrow> CmdOptions \<Rightarrow> parse_exit + CmdOptions" where
  "parse_flags [] options = Inr options"
| "parse_flags (option # rest) options =
     (if option = ''--httpproxy'' then
        (case rest of
           [] \<Rightarrow> Inl PeekPastEnd
         | v # rest' \<Rightarrow> if \<not> startsWith v ''-''
                         then parse_flags rest' (options\<lparr>proxy := Some v\<rparr>) else Inl Usage)
      else if option = ''-s'' \<or> option = ''--silent'' then
        parse_flags rest (options\<lparr>silent := True\<rparr>)
      else if option = ''--trust'' then
        parse_flags rest (options\<lparr>trustSSL := True\<rparr>)
      else if option = ''-n'' then
        parse_flags rest (options\<lparr>useNetrc := True\<rparr>)
      else if option = ''--non-interactive'' then
        parse_flags rest (options\<lparr>interactive := False\<rparr>)
      else if option = ''-u'' \<or> option = ''--user'' then
        (case rest of
           [] \<Rightarrow> Inl PeekPastEnd
         | v # rest' \<Rightarrow> if \<not> startsWith v ''-''
                         then parse_flags rest' (options\<lparr>user := v\<rparr>) else Inl Usage)
      else if option = ''-p'' \<or> option = ''--password'' then
        (case rest of
           [] \<Rightarrow> Inl PeekPastEnd
         | v # rest' \<Rightarrow> if \<not> startsWith v ''-''
                         then parse_flags rest' (options\<lparr>user := v\<rparr>) else Inl Usage)
      else if option = ''--exclude'' then
        (case rest of
           [] \<Rightarrow> Inl PeekPastEnd
         | v # rest' \<Rightarrow> if \<not> startsWith v ''-''
                         then parse_flags rest' (options\<lparr>exclude := v\<rparr>) else Inl Usage)
      else Inl Usage)"

definition parseOptions :: "cmd_env \<Rightarrow> string list \<Rightarrow> CmdOptions \<Rightarrow> parse_exit + CmdOptions" where
  "parseOptions e app_args options =
     (if length app_args < 3 then Inl Usage
      else
        let url0 = last app_args;
            args1 = butlast app_args;
            url1 = (if \<not> contains url0 ''remote.php/webdav''
                    then (if \<not> endsWith url0 ''/'' then url0 @ ''/'' else url0) @ ''remote.php/webdav''
                    else url0);
            url2 = (if startsWith url1 ''http'' then ''owncloud'' @ drop 4 url1 else url1);
            dir = last args1;
            args2 = butlast args1
        in if \<not> file_exists e dir then Inl NoSourceDir
           else (case parse_flags (tl args2) (options\<lparr>target_url := url2, source_dir := dir\<rparr>) of
                   Inl x \<Rightarrow> Inl x
                 | Inr options1 \<Rightarrow>
                     if target_url options1 = [] \<or> source_dir options1 = [] then Inl Usage
                     else Inr options1))"

subsection \<open>main: options and credentials\<close>

definition initial_options :: CmdOptions where
  "initial_options =
     \<lparr>source_dir = [], target_url = [], config_directory = [], user = [], password = [],
      proxy = None, silent = False, trustSSL = False, useNetrc = False, interactive = True,
      exclude = []\<rparr>"

text \<open>The user name and password main hands to \<open>HttpCredentialsText\<close>.\<close>

definition credentials :: "cmd_env \<Rightarrow> CmdOptions \<Rightarrow> string \<times> string" where
  "credentials e options =
     (if useNetrc options then
        (case netrc_login e of None \<Rightarrow> ([], []) | Some pair \<Rightarrow> pair)
      else
        let user1 = (if user options = [] then url_userName e else user options);
            password1 = (if password options = [] then url_password e else password options)
        in if interactive options then
             (let user2 = (if user1 = [] then typed_user e else user1);
                  password2 = (if password1 = [] then typed_password e else password1)
              in (user2, password2))
           else (user1, password1))"

subsection \<open>main: the proxy properties\<close>

datatype propval = PString string | PInt int | PContext nat

text \<open>
  The calls of csync_set_module_property main makes for an explicit proxy string, in order,
  as (key, value) pairs.  The parts of a split are never null strings, so \<open>host.isNull()\<close> is
  false.
\<close>

definition isNull :: "string option \<Rightarrow> bool" where
  "isNull q = (q = None)"

definition proxy_properties :: "string \<Rightarrow> (string \<times> propval) list" where
  "proxy_properties p =
     (let pList = qsplit CHR '':'' p
      in (''proxy_type'', PString ''NoProxy'') #
         (if length pList = 3 then
            (let host0 = pList ! 1;
                 host = (if startsWith host0 ''//'' then drop 2 host0 else host0);
                 (port, ok) = toInt (pList ! 2)
             in if \<not> isNull (Some host) then
                  [(''proxy_type'', PString ''HttpProxy''), (''proxy_host'', PString host)] @
                  (if ok \<and> port \<noteq> 0 then [(''proxy_port'', PInt port)] else [])
                else [])
          else []))"

text \<open>The property bag of the context: a later call for a key replaces the earlier value.\<close>

definition set_module_properties ::
  "(string \<times> propval) list \<Rightarrow> (string \<rightharpoonup> propval) \<Rightarrow> (string \<rightharpoonup> propval)" where
  "set_module_properties kvs props = foldl (\<lambda>m (k, v). m(k \<mapsto> v)) props kvs"

subsection \<open>main: the sync loop\<close>

text \<open>
  What one run of the code between the label \<open>restart_sync\<close> and the end of main does, as
  the list of its calls.  The number in an event is the pass it belongs to: the \<open>k\<close>-th
  csync_create makes context \<open>k\<close>, and the objects \<open>db\<close> and \<open>engine\<close> declared after the
  label are made in each pass and deleted when \<open>goto\<close> jumps back over their declarations
  or main returns.
\<close>

datatype event =
    CsyncCreate nat
  | NeSockInit
  | SetLogLevel int
  | SyncContextPreInit nat
  | CsyncInit nat
  | SetModuleProperty nat string propval
  | SetCSyncProxy nat
  | AddExcludeList nat string
  | SyncContextPreStart nat
  | NewSyncJournalDb nat
  | NewSyncEngine nat
  | StartSync nat
  | CsyncDestroy nat
  | NeSockExit
  | DeleteSyncEngine nat
  | DeleteSyncJournalDb nat

datatype main_exit = Fatal string | Return int

definition configure :: "CmdOptions \<Rightarrow> nat \<Rightarrow> event list" where
  "configure options k =
     SetModuleProperty k ''csync_context'' (PContext k) #
     (case proxy options of
        Some p \<Rightarrow> map (\<lambda>(key, v). SetModuleProperty k key v) (proxy_properties p)
      | None \<Rightarrow> [SetCSyncProxy k]) @
     (if exclude options \<noteq> [] then [AddExcludeList k (exclude options)] else [])"

definition run_pass :: "CmdOptions \<Rightarrow> nat \<Rightarrow> event list" where
  "run_pass options k =
     [SyncContextPreStart k, NewSyncJournalDb k, NewSyncEngine k, StartSync k,
      CsyncDestroy k, NeSockExit]"

partial_function (option) sync_passes ::
  "cmd_env \<Rightarrow> CmdOptions \<Rightarrow> nat \<Rightarrow> event list \<Rightarrow> (main_exit \<times> event list) option" where
  "sync_passes e options k trace =
     (if csync_create_rc e k < 0 then Some (Fatal ''Unable to create csync-context!'', trace)
      else
        let t1 = trace @ [CsyncCreate k, NeSockInit]
        in if ne_sock_init_rc e k < 0 then Some (Fatal ''ne_sock_init failed!'', t1)
           else
             let t2 = t1 @ [SetLogLevel (if silent options then 1 else 11),
                            SyncContextPreInit k, CsyncInit k]
             in if csync_init_rc e k < 0 then Some (Fatal ''Could not initialize csync!'', t2)
                else
                  let t3 = t2 @ configure options k @ run_pass options k @
                           [DeleteSyncEngine k, DeleteSyncJournalDb k]
                  in if isAnotherSyncNeeded e k then sync_passes e options (Suc k) t3
                     else Some (Return 0, t3))"

declare sync_passes.simps [code]

text \<open>
  The calls of one pass in which nothing fails, and two readings of a list of calls: the
  contexts made by csync_create and the \<open>SyncJournalDb\<close> objects constructed, in order.
\<close>

definition pass_events :: "CmdOptions \<Rightarrow> nat \<Rightarrow> event list" where
  "pass_events options k =
     [CsyncCreate k, NeSockInit, SetLogLevel (if silent options then 1 else 11),
      SyncContextPreInit k, CsyncInit k] @
     configure options k @ run_pass options k @ [DeleteSyncEngine k, DeleteSyncJournalDb k]"

fun created_contexts :: "event list \<Rightarrow> nat list" where
  "created_contexts [] = []"
| "created_contexts (CsyncCreate k # t) = k # created_contexts t"
| "created_contexts (x # t) = created_contexts t"

fun journal_instances :: "event list \<Rightarrow> nat list" where
  "journal_instances [] = []"
| "journal_instances (NewSyncJournalDb k # t) = k # journal_instances t"
| "journal_instances (x # t) = journal_instances t"

section \<open>Example inputs\<close>

text \<open>
  An environment in which every call succeeds and every statement is done at its first
  step, an empty world, a context without a connection, and an environment of the client
  in which every path exists and nothing fails.
\<close>

definition env_ok :: env where
  "env_ok =
     \<lparr>open_ok = (\<lambda>p. True), read_ok = (\<lambda>p. True), unlink_ok = (\<lambda>p. True),
      copy_ok = (\<lambda>src dst. True), alloc_ok = (\<lambda>k. True),
      open_rc = (\<lambda>p c. SQLITE_OK), prepare_rc = (\<lambda>k s. SQLITE_OK),
      column_count = (\<lambda>k. 1), step_rc = (\<lambda>k. SQLITE_DONE),
      column_text = (\<lambda>k i. Some ''0''), step_write = (\<lambda>k c. c),
      finalize_rc = (\<lambda>k. SQLITE_OK), last_insert_rowid = (\<lambda>k. 0)\<rparr>"

definition world0 :: world where
  "world0 =
     \<lparr>files = (\<lambda>p. None), unlinks = [], allocs = 0, prepares = 0, steps = 0, finalizes = 0,
      slept = 0\<rparr>"

definition ctx0 :: CSYNC where
  "ctx0 = \<lparr>journal = None, journal_exists = 0\<rparr>"

definition cmd_env_ok :: cmd_env where
  "cmd_env_ok =
     \<lparr>file_exists = (\<lambda>p. True), url_userName = [], url_password = [],
      netrc_login = None, typed_user = ''typed-user'', typed_password = ''typed-password'',
      csync_create_rc = (\<lambda>k. 0), ne_sock_init_rc = (\<lambda>k. 0), csync_init_rc = (\<lambda>k. 0),
      isAnotherSyncNeeded = (\<lambda>k. False)\<rparr>"

text \<open>
  A context holding a connection on a sidecar file, and environments that differ from
  \<open>env_ok\<close> in one answer: c_copy fails; the sidecar cannot be opened; the database is
  locked whenever a statement is compiled; whenever one is stepped; a statement gives two
  rows of one column; the probe of a database without the metadata table does not compile;
  and the last insert row id is \<open>2^31\<close>.
\<close>

definition ctx_open :: CSYNC where
  "ctx_open = \<lparr>journal = Some ''journal.db.ctmp'', journal_exists = 1\<rparr>"

definition env_copy_fails :: env where
  "env_copy_fails = env_ok\<lparr>copy_ok := (\<lambda>src dst. False)\<rparr>"

definition env_sidecar_open_fails :: env where
  "env_sidecar_open_fails =
     env_ok\<lparr>open_rc := (\<lambda>p c. if p = ''journal.db.ctmp'' then SQLITE_ERROR else SQLITE_OK)\<rparr>"

definition env_prepare_busy :: env where
  "env_prepare_busy = env_ok\<lparr>prepare_rc := (\<lambda>k s. SQLITE_BUSY)\<rparr>"

definition env_step_busy :: env where
  "env_step_busy = env_ok\<lparr>step_rc := (\<lambda>k. SQLITE_BUSY)\<rparr>"

definition env_two_rows :: env where
  "env_two_rows =
     env_ok\<lparr>step_rc := (\<lambda>k. if k < 2 then SQLITE_ROW else SQLITE_DONE),
            column_text := (\<lambda>k i. if k = 0 then Some ''first'' else Some ''second'')\<rparr>"

definition env_no_table :: env where
  "env_no_table = env_ok\<lparr>prepare_rc := (\<lambda>k s. SQLITE_ERROR)\<rparr>"

definition env_big_rowid :: env where
  "env_big_rowid = env_ok\<lparr>last_insert_rowid := (\<lambda>k. 2 ^ 31)\<rparr>"

text \<open>An environment in which every step of a statement rewrites the database file.\<close>

definition env_writing :: env where
  "env_writing = env_ok\<lparr>step_write := (\<lambda>k c. Some ''written'')\<rparr>"

text \<open>A world whose journal file does not start with the SQLite header.\<close>

definition world_corrupt :: world where
  "world_corrupt = world0\<lparr>files := (\<lambda>p. if p = ''journal.db'' then Some ''garbage'' else None)\<rparr>"

text \<open>An engine that asks for another pass after the first and the second pass only.\<close>

definition cmd_env_repeat2 :: cmd_env where
  "cmd_env_repeat2 = cmd_env_ok\<lparr>isAnotherSyncNeeded := (\<lambda>k. k < 2)\<rparr>"

section \<open>Properties of the journal store\<close>

lemmas calls = usleep_def unlink_def sqlite3_open_def sqlite3_prepare_def sqlite3_step_def
  sqlite3_finalize_def sqlite3_last_insert_rowid_def c_strlist_new_def c_strlist_add_def
  c_streq_def c_copy_def

lemmas examples = env_ok_def world0_def ctx0_def ctx_open_def env_copy_fails_def
  env_sidecar_open_fails_def env_prepare_busy_def env_step_busy_def env_two_rows_def
  env_no_table_def env_big_rowid_def env_writing_def world_corrupt_def

lemmas journal_defs = csync_journal_query_def query_finish_def csync_journal_is_empty_def
  journal_load_body_def csync_journal_load_def csync_journal_insert_def
  csync_journal_check_def create_database_def header_string_def

subsection \<open>The prepare loop\<close>

declare prepare_busy.simps [simp del]

lemma prepare_busy_again:
  assumes "fst (sqlite3_prepare env ctx statement w) = SQLITE_BUSY" and "b < 120"
  shows "prepare_busy env ctx statement b w
         = prepare_busy env ctx statement (Suc b)
             ((if b \<noteq> 0 then usleep 100000 w else w)\<lparr>prepares := Suc (prepares w)\<rparr>)"
  using assms by (subst prepare_busy.simps) (auto simp add: calls Let_def split: if_splits)

lemma prepare_busy_stop:
  assumes "fst (sqlite3_prepare env ctx statement w) \<noteq> SQLITE_BUSY \<or> \<not> b < 120"
  shows "prepare_busy env ctx statement b w
         = (fst (sqlite3_prepare env ctx statement w),
            (if fst (sqlite3_prepare env ctx statement w) = SQLITE_BUSY then Suc b else b),
            (if b \<noteq> 0 then usleep 100000 w else w)\<lparr>prepares := Suc (prepares w)\<rparr>)"
  using assms by (subst prepare_busy.simps) (auto simp add: calls Let_def split: if_splits)

lemma prepare_busy_frame:
  "prepare_busy env ctx statement b w = (err, b', w') \<Longrightarrow>
     files w' = files w \<and> unlinks w' = unlinks w \<and> steps w' = steps w
     \<and> finalizes w' = finalizes w \<and> allocs w' = allocs w"
proof (induction "120 - b" arbitrary: b w)
  case 0
  then show ?case by (auto simp: prepare_busy_stop calls)
next
  case (Suc d)
  show ?case
  proof (cases "fst (sqlite3_prepare env ctx statement w) = SQLITE_BUSY \<and> b < 120")
    case True
    with Suc.prems have "prepare_busy env ctx statement (Suc b)
             ((if b \<noteq> 0 then usleep 100000 w else w)\<lparr>prepares := Suc (prepares w)\<rparr>) = (err, b', w')"
      by (simp add: prepare_busy_again)
    moreover have "d = 120 - Suc b" using Suc.hyps(2) by simp
    ultimately show ?thesis using Suc.hyps(1) by (fastforce simp: calls)
  next
    case False
    with Suc.prems show ?thesis by (auto simp: prepare_busy_stop calls)
  qed
qed

text \<open>
  From a counter of 0 the prepare loop compiles the statement at most 121 times, and it
  sleeps 100 msec before every call but the first.
\<close>

lemma prepare_busy_bound:
  "prepare_busy env ctx statement b w = (err, b', w') \<Longrightarrow> b \<le> 120 \<Longrightarrow>
     prepares w < prepares w' \<and> prepares w' + b \<le> prepares w + 121
     \<and> slept w' + (if b = 0 then 100000 else 0) + 100000 * prepares w
         = slept w + 100000 * prepares w'"
proof (induction "120 - b" arbitrary: b w)
  case 0
  then show ?case by (auto simp: prepare_busy_stop calls)
next
  case (Suc d)
  show ?case
  proof (cases "fst (sqlite3_prepare env ctx statement w) = SQLITE_BUSY \<and> b < 120")
    case True
    with Suc.prems have "prepare_busy env ctx statement (Suc b)
             ((if b \<noteq> 0 then usleep 100000 w else w)\<lparr>prepares := Suc (prepares w)\<rparr>) = (err, b', w')"
      by (simp add: prepare_busy_again)
    moreover have "d = 120 - Suc b" using Suc.hyps(2) by simp
    ultimately show ?thesis using Suc.hyps(1) [of "Suc b"] True
      by (fastforce simp: calls split: if_splits)
  next
    case False
    with Suc.prems show ?thesis by (auto simp: prepare_busy_stop calls)
  qed
qed

lemma prepare_busy_always_busy:
  assumes "\<forall>k. prepare_rc env k statement = SQLITE_BUSY" and "journal ctx \<noteq> None"
  shows "prepare_busy env ctx statement b w = (err, b', w') \<Longrightarrow> b \<le> 120 \<Longrightarrow>
         err = SQLITE_BUSY \<and> b' = 121 \<and> prepares w' + b = prepares w + 121"
proof (induction "120 - b" arbitrary: b w)
  case 0
  then show ?case using assms by (auto simp: prepare_busy_stop calls)
next
  case (Suc d)
  have busy: "fst (sqlite3_prepare env ctx statement w) = SQLITE_BUSY" and lt: "b < 120"
    using assms Suc.hyps(2) by (auto simp: calls)
  with Suc.prems have "prepare_busy env ctx statement (Suc b)
             ((if b \<noteq> 0 then usleep 100000 w else w)\<lparr>prepares := Suc (prepares w)\<rparr>) = (err, b', w')"
      by (simp add: prepare_busy_again)
  moreover have "d = 120 - Suc b" using Suc.hyps(2) by simp
  ultimately show ?case using Suc.hyps(1) [of "Suc b"] lt
    by (fastforce simp: calls split: if_splits)
qed

subsection \<open>The row loops\<close>

text \<open>The row loops compile and finalize nothing and touch no file but the connection's.\<close>

lemma insert_rows_frame:
  assumes "insert_rows env ctx b w = Some y"
  shows "prepares (snd (snd y)) = prepares w \<and> finalizes (snd (snd y)) = finalizes w
         \<and> allocs (snd (snd y)) = allocs w
         \<and> (\<forall>p. journal ctx \<noteq> Some p \<longrightarrow> files (snd (snd y)) p = files w p)"
  by (rule insert_rows.raw_induct
        [where P = "\<lambda>env ctx b w y. prepares (snd (snd y)) = prepares w
            \<and> finalizes (snd (snd y)) = finalizes w \<and> allocs (snd (snd y)) = allocs w
            \<and> (\<forall>p. journal ctx \<noteq> Some p \<longrightarrow> files (snd (snd y)) p = files w p)", OF _ assms])
     (fastforce simp: calls Let_def split: if_splits prod.splits option.splits)

lemma query_rows_frame:
  assumes "query_rows env ctx ncols b r w = Some y"
  shows "prepares (snd y) = prepares w \<and> finalizes (snd y) = finalizes w
         \<and> (\<forall>p. journal ctx \<noteq> Some p \<longrightarrow> files (snd y) p = files w p)"
  by (rule query_rows.raw_induct
        [where P = "\<lambda>env ctx ncols b r w y. prepares (snd y) = prepares w
            \<and> finalizes (snd y) = finalizes w
            \<and> (\<forall>p. journal ctx \<noteq> Some p \<longrightarrow> files (snd y) p = files w p)", OF _ assms])
     (fastforce simp: calls Let_def split: if_splits prod.splits option.splits)

text \<open>The row loops sleep at most 121 times, whatever the database answers.\<close>

lemma insert_rows_sleeps:
  assumes "insert_rows env ctx b w = Some y"
  shows "b \<le> fst (snd y) \<and> (b \<le> 121 \<longrightarrow> fst (snd y) \<le> 122)
         \<and> slept (snd (snd y)) + 100000 * b
             = slept w + 100000 * (if fst y = SQLITE_BUSY then fst (snd y) - 1 else fst (snd y))"
  by (rule insert_rows.raw_induct
        [where P = "\<lambda>env ctx b w y. b \<le> fst (snd y) \<and> (b \<le> 121 \<longrightarrow> fst (snd y) \<le> 122)
         \<and> slept (snd (snd y)) + 100000 * b
             = slept w + 100000 * (if fst y = SQLITE_BUSY then fst (snd y) - 1 else fst (snd y))",
         OF _ assms])
     (fastforce simp: calls Let_def split: if_splits prod.splits option.splits)

text \<open>
  A row loop ends when some later step answers SQLITE_DONE or SQLITE_ERROR: the statement
  has finitely many rows.
\<close>

lemma insert_rows_step:
  "insert_rows env ctx b w =
     (if step_rc env (steps w) = SQLITE_BUSY then
        (if b > 120 then Some (SQLITE_BUSY, b + 1, snd (sqlite3_step env ctx w))
         else insert_rows env ctx (b + 1) (usleep 100000 (snd (sqlite3_step env ctx w))))
      else if step_rc env (steps w) = SQLITE_DONE \<or> step_rc env (steps w) = SQLITE_ERROR
      then Some (step_rc env (steps w), b, snd (sqlite3_step env ctx w))
      else insert_rows env ctx b (snd (sqlite3_step env ctx w)))"
  by (subst insert_rows.simps) (simp add: sqlite3_step_def Let_def)

lemma steps_after_step: "steps (snd (sqlite3_step env ctx w)) = Suc (steps w)"
  by (simp add: sqlite3_step_def)

lemma insert_rows_terminates:
  assumes "step_rc env j = SQLITE_DONE \<or> step_rc env j = SQLITE_ERROR" and "steps w \<le> j"
  shows "\<exists>y. insert_rows env ctx b w = Some y"
  using assms(2)
proof (induction "j - steps w" arbitrary: w b)
  case 0
  then have "steps w = j" by simp
  with assms(1) show ?case by (subst insert_rows_step) auto
next
  case (Suc d)
  show ?case
  proof (cases "step_rc env (steps w) = SQLITE_DONE \<or> step_rc env (steps w) = SQLITE_ERROR")
    case True
    then show ?thesis by (subst insert_rows_step) auto
  next
    case False
    with assms(1) Suc.prems have lt: "steps w < j" by (metis le_neq_implies_less)
    have a: "\<exists>y. insert_rows env ctx b' (snd (sqlite3_step env ctx w)) = Some y" for b'
      using Suc.hyps(2) lt by (intro Suc.hyps(1)) (simp_all add: steps_after_step)
    have b: "\<exists>y. insert_rows env ctx b' (usleep 100000 (snd (sqlite3_step env ctx w))) = Some y" for b'
      using Suc.hyps(2) lt by (intro Suc.hyps(1)) (simp_all add: steps_after_step usleep_def)
    show ?thesis
      using a b False by (subst insert_rows_step) auto
  qed
qed

lemma query_rows_step:
  "query_rows env ctx ncols b r w =
     (if step_rc env (steps w) = SQLITE_BUSY then
        (if b > 120 then Some (LoopEnd SQLITE_BUSY (b + 1) r, snd (sqlite3_step env ctx w))
         else query_rows env ctx ncols (b + 1) r (usleep 100000 (snd (sqlite3_step env ctx w))))
      else if step_rc env (steps w) = SQLITE_DONE \<or> step_rc env (steps w) = SQLITE_ERROR
      then Some (LoopEnd (step_rc env (steps w)) b r, snd (sqlite3_step env ctx w))
      else (case fst (c_strlist_new env ncols (snd (sqlite3_step env ctx w))) of
              None \<Rightarrow> Some (ReturnNull, snd (c_strlist_new env ncols (snd (sqlite3_step env ctx w))))
            | Some l \<Rightarrow>
                (case add_columns (column_text env (steps w)) [0..<ncols] l of
                   None \<Rightarrow> Some (ReturnNull, snd (c_strlist_new env ncols (snd (sqlite3_step env ctx w))))
                 | Some l' \<Rightarrow> query_rows env ctx ncols b (Some l')
                               (snd (c_strlist_new env ncols (snd (sqlite3_step env ctx w)))))))"
  by (subst query_rows.simps)
     (simp add: sqlite3_step_def Let_def split: prod.splits option.splits)

lemma steps_after_new: "steps (snd (c_strlist_new env n w)) = steps w"
  by (simp add: c_strlist_new_def)

lemma query_rows_terminates:
  assumes "step_rc env j = SQLITE_DONE \<or> step_rc env j = SQLITE_ERROR" and "steps w \<le> j"
  shows "\<exists>y. query_rows env ctx ncols b r w = Some y"
  using assms(2)
proof (induction "j - steps w" arbitrary: w b r)
  case 0
  then have "steps w = j" by simp
  with assms(1) show ?case by (subst query_rows_step) auto
next
  case (Suc d)
  show ?case
  proof (cases "step_rc env (steps w) = SQLITE_DONE \<or> step_rc env (steps w) = SQLITE_ERROR")
    case True
    then show ?thesis by (subst query_rows_step) auto
  next
    case False
    with assms(1) Suc.prems have lt: "steps w < j" by (metis le_neq_implies_less)
    have a: "\<exists>y. query_rows env ctx ncols b' r'
                  (snd (c_strlist_new env ncols (snd (sqlite3_step env ctx w)))) = Some y" for b' r'
      using Suc.hyps(2) lt
      by (intro Suc.hyps(1)) (simp_all add: steps_after_step steps_after_new)
    have b: "\<exists>y. query_rows env ctx ncols b' r'
                  (usleep 100000 (snd (sqlite3_step env ctx w))) = Some y" for b' r'
      using Suc.hyps(2) lt by (intro Suc.hyps(1)) (simp_all add: steps_after_step usleep_def)
    show ?thesis
      using a b False by (subst query_rows_step) (auto split: option.splits)
  qed
qed

lemma query_rows_sleeps:
  assumes "query_rows env ctx ncols b r w = Some (LoopEnd err b' r', w')"
  shows "b \<le> b' \<and> (b \<le> 121 \<longrightarrow> b' \<le> 122)
         \<and> slept w' + 100000 * b = slept w + 100000 * (if err = SQLITE_BUSY then b' - 1 else b')"
  using query_rows.raw_induct
        [where P = "\<lambda>env ctx ncols b r w y. \<forall>err b' r'. fst y = LoopEnd err b' r' \<longrightarrow>
           b \<le> b' \<and> (b \<le> 121 \<longrightarrow> b' \<le> 122)
           \<and> slept (snd y) + 100000 * b
               = slept w + 100000 * (if err = SQLITE_BUSY then b' - 1 else b')", OF _ assms]
  by (fastforce simp: calls Let_def split: if_splits prod.splits option.splits)

text \<open>
  A statement that compiled on a database that then stays locked: the row loops step 122
  times and sleep 121 times before they give up.
\<close>

lemma insert_rows_always_busy:
  assumes "\<forall>k. step_rc env k = SQLITE_BUSY"
  shows "b \<le> 121 \<Longrightarrow>
         \<exists>w'. insert_rows env ctx b w = Some (SQLITE_BUSY, 122, w')
               \<and> steps w' + b = steps w + 122 \<and> slept w' + 100000 * b = slept w + 12100000"
proof (induction "121 - b" arbitrary: b w)
  case 0
  then have "b = 121" by simp
  then show ?case
    using assms by (subst insert_rows_step) (simp add: steps_after_step sqlite3_step_def)
next
  case (Suc d)
  then have b: "\<not> 120 < b" and d: "d = 121 - Suc b" and le: "Suc b \<le> 121" by simp_all
  from Suc.hyps(1) [OF d le, of "usleep 100000 (snd (sqlite3_step env ctx w))"]
  obtain w' where "insert_rows env ctx (Suc b) (usleep 100000 (snd (sqlite3_step env ctx w)))
                   = Some (SQLITE_BUSY, 122, w')"
    and "steps w' + Suc b = steps (usleep 100000 (snd (sqlite3_step env ctx w))) + 122"
    and "slept w' + 100000 * Suc b = slept (usleep 100000 (snd (sqlite3_step env ctx w))) + 12100000"
    by blast
  then show ?case
    using assms b
    by (subst insert_rows_step) (simp add: usleep_def sqlite3_step_def)
qed

lemma query_rows_always_busy:
  assumes "\<forall>k. step_rc env k = SQLITE_BUSY"
  shows "b \<le> 121 \<Longrightarrow>
         \<exists>w'. query_rows env ctx ncols b r w = Some (LoopEnd SQLITE_BUSY 122 r, w')
               \<and> steps w' + b = steps w + 122 \<and> slept w' + 100000 * b = slept w + 12100000"
proof (induction "121 - b" arbitrary: b w)
  case 0
  then have "b = 121" by simp
  then show ?case
    using assms by (subst query_rows_step) (simp add: steps_after_step sqlite3_step_def)
next
  case (Suc d)
  then have b: "\<not> 120 < b" and d: "d = 121 - Suc b" and le: "Suc b \<le> 121" by simp_all
  from Suc.hyps(1) [OF d le, of "usleep 100000 (snd (sqlite3_step env ctx w))"]
  obtain w' where "query_rows env ctx ncols (Suc b) r (usleep 100000 (snd (sqlite3_step env ctx w)))
                   = Some (LoopEnd SQLITE_BUSY 122 r, w')"
    and "steps w' + Suc b = steps (usleep 100000 (snd (sqlite3_step env ctx w))) + 122"
    and "slept w' + 100000 * Suc b = slept (usleep 100000 (snd (sqlite3_step env ctx w))) + 12100000"
    by blast
  then show ?case
    using assms b
    by (subst query_rows_step) (simp add: usleep_def sqlite3_step_def)
qed

text \<open>
  A statement of \<open>n\<close> rows: the row loop steps \<open>n + 1\<close> times and leaves in \<open>result\<close> the
  list of the last row, or what \<open>result\<close> was when there is no row.
\<close>

lemma add_columns_all:
  assumes "\<forall>c\<in>set cols. text c \<noteq> None"
      and "length (vector l) + length cols \<le> strlist_size l"
  shows "add_columns text cols l = Some (l\<lparr>vector := vector l @ map (\<lambda>c. the (text c)) cols\<rparr>)"
  using assms
proof (induction cols arbitrary: l)
  case Nil
  then show ?case by simp
next
  case (Cons c cols)
  then obtain t where t: "text c = Some t" by auto
  have "c_strlist_add l (text c) = Some (l\<lparr>vector := vector l @ [t]\<rparr>)"
    using Cons.prems(2) t by (simp add: c_strlist_add_def)
  moreover have "add_columns text cols (l\<lparr>vector := vector l @ [t]\<rparr>)
                 = Some (l\<lparr>vector := vector l @ [t]\<rparr>
                          \<lparr>vector := vector (l\<lparr>vector := vector l @ [t]\<rparr>) @ map (\<lambda>c. the (text c)) cols\<rparr>)"
    using Cons.prems by (intro Cons.IH) simp_all
  ultimately show ?case using t by simp
qed

lemma query_rows_rows:
  assumes "0 < ncols" and "\<forall>k. alloc_ok env k"
  shows "\<forall>i<n. step_rc env (steps w + i) = SQLITE_ROW \<Longrightarrow>
         step_rc env (steps w + n) = SQLITE_DONE \<Longrightarrow>
         \<forall>i<n. \<forall>c<ncols. column_text env (steps w + i) c \<noteq> None \<Longrightarrow>
         \<exists>w'. query_rows env ctx ncols b r w
               = Some (LoopEnd SQLITE_DONE b
                        (if n = 0 then r
                         else Some \<lparr>vector = map (\<lambda>c. the (column_text env (steps w + n - 1) c))
                                               [0..<ncols],
                                    strlist_size = ncols\<rparr>), w')
               \<and> steps w' = steps w + n + 1"
proof (induction n arbitrary: w r)
  case 0
  then show ?case
    by (subst query_rows_step) (simp add: steps_after_step)
next
  case (Suc n)
  let ?w1 = "snd (sqlite3_step env ctx w)"
  let ?w2 = "snd (c_strlist_new env ncols ?w1)"
  let ?l = "\<lparr>vector = map (\<lambda>c. the (column_text env (steps w) c)) [0..<ncols], strlist_size = ncols\<rparr>"
  have row: "step_rc env (steps w) = SQLITE_ROW"
    using Suc.prems(1) [rule_format, of 0] by simp
  have new: "fst (c_strlist_new env ncols ?w1) = Some \<lparr>vector = [], strlist_size = ncols\<rparr>"
    using assms by (simp add: c_strlist_new_def)
  have "\<forall>c\<in>set [0..<ncols]. column_text env (steps w) c \<noteq> None"
    using Suc.prems(3) [rule_format, of 0] by simp
  then have cols: "add_columns (column_text env (steps w)) [0..<ncols] \<lparr>vector = [], strlist_size = ncols\<rparr>
             = Some ?l"
    by (subst add_columns_all) simp_all
  have s2: "steps ?w2 = Suc (steps w)"
    by (simp add: steps_after_new steps_after_step)
  have unfold: "query_rows env ctx ncols b r w = query_rows env ctx ncols b (Some ?l) ?w2"
    using row new cols by (subst query_rows_step) simp
  have "\<exists>w'. query_rows env ctx ncols b (Some ?l) ?w2
               = Some (LoopEnd SQLITE_DONE b
                        (if n = 0 then Some ?l
                         else Some \<lparr>vector = map (\<lambda>c. the (column_text env (steps ?w2 + n - 1) c))
                                               [0..<ncols],
                                    strlist_size = ncols\<rparr>), w')
               \<and> steps w' = steps ?w2 + n + 1"
  proof (rule Suc.IH)
    show "\<forall>i<n. step_rc env (steps ?w2 + i) = SQLITE_ROW"
      using Suc.prems(1) s2 by (metis Suc_less_eq add_Suc_shift)
    show "step_rc env (steps ?w2 + n) = SQLITE_DONE"
      using Suc.prems(2) s2 by simp
    show "\<forall>i<n. \<forall>c<ncols. column_text env (steps ?w2 + i) c \<noteq> None"
      using Suc.prems(3) s2 by (metis Suc_less_eq add_Suc_shift)
  qed
  then show ?case
    using unfold s2 by (cases "n = 0") auto
qed


subsection \<open>The retry loops\<close>

text \<open>
  Both functions touch no file but the one of the connection, and both return whenever
  every statement is done or fails after finitely many steps.
\<close>

lemma insert_loop_frame:
  assumes "insert_loop env ctx statement b n w = Some w'"
  shows "\<forall>p. journal ctx \<noteq> Some p \<longrightarrow> files w' p = files w p"
  by (rule insert_loop.raw_induct
        [where P = "\<lambda>env ctx statement b n w w'.
            \<forall>p. journal ctx \<noteq> Some p \<longrightarrow> files w' p = files w p", OF _ assms])
     (fastforce simp: sqlite3_finalize_def Let_def split: if_splits prod.splits option.splits
        dest!: prepare_busy_frame insert_rows_frame)

lemma query_finish_files:
  "files (case query_finish env n err b r w of Inl (r', w') \<Rightarrow> w' | Inr (b', n', r', w') \<Rightarrow> w')
     = files w"
  by (simp add: query_finish_def calls Let_def split: prod.splits)

lemma query_loop_frame:
  assumes "query_loop env ctx statement b n r w = Some y"
  shows "\<forall>p. journal ctx \<noteq> Some p \<longrightarrow> files (snd y) p = files w p"
  by (rule query_loop.raw_induct
        [where P = "\<lambda>env ctx statement b n r w y.
            \<forall>p. journal ctx \<noteq> Some p \<longrightarrow> files (snd y) p = files w p", OF _ assms])
     (fastforce simp: query_finish_def calls Let_def
        split: if_splits prod.splits option.splits rows_exit.splits sum.splits
        dest!: prepare_busy_frame query_rows_frame)

lemma insert_loop_terminates:
  assumes fin: "\<forall>i. \<exists>j\<ge>i. step_rc env j = SQLITE_DONE \<or> step_rc env j = SQLITE_ERROR"
  shows "\<exists>w'. insert_loop env ctx statement b n w = Some w'"
proof (induction "10 - n" arbitrary: b n w)
  case 0
  obtain err b1 w1 where p: "prepare_busy env ctx statement b w = (err, b1, w1)"
    by (metis prod_cases3)
  obtain j where "steps w1 \<le> j" "step_rc env j = SQLITE_DONE \<or> step_rc env j = SQLITE_ERROR"
    using fin by blast
  then obtain y where "insert_rows env ctx 0 w1 = Some y"
    using insert_rows_terminates by blast
  with p 0 show ?case
    by (subst insert_loop.simps) (auto simp: Let_def split: prod.splits)
next
  case (Suc d)
  obtain err b1 w1 where p: "prepare_busy env ctx statement b w = (err, b1, w1)"
    by (metis prod_cases3)
  obtain j where "steps w1 \<le> j" "step_rc env j = SQLITE_DONE \<or> step_rc env j = SQLITE_ERROR"
    using fin by blast
  then obtain y where r: "insert_rows env ctx 0 w1 = Some y"
    using insert_rows_terminates by blast
  have "\<exists>w'. insert_loop env ctx statement b' (n + 1) w2 = Some w'" for b' w2
    using Suc.hyps(2) by (intro Suc.hyps(1)) simp
  with p r show ?case
    by (subst insert_loop.simps) (auto simp: Let_def split: prod.splits)
qed

lemma query_loop_terminates:
  assumes fin: "\<forall>i. \<exists>j\<ge>i. step_rc env j = SQLITE_DONE \<or> step_rc env j = SQLITE_ERROR"
  shows "\<exists>y. query_loop env ctx statement b n r w = Some y"
proof (induction "10 - n" arbitrary: b n r w)
  case 0
  obtain err b1 w1 where p: "prepare_busy env ctx statement b w = (err, b1, w1)"
    by (metis prod_cases3)
  obtain j where "steps w1 \<le> j" "step_rc env j = SQLITE_DONE \<or> step_rc env j = SQLITE_ERROR"
    using fin by blast
  then obtain y where "query_rows env ctx (column_count env (prepares w1 - 1)) 0 r w1 = Some y"
    using query_rows_terminates by blast
  with p 0 show ?case
    by (subst query_loop.simps)
       (auto simp: query_finish_def Let_def split: prod.splits rows_exit.splits sum.splits)
next
  case (Suc d)
  obtain err b1 w1 where p: "prepare_busy env ctx statement b w = (err, b1, w1)"
    by (metis prod_cases3)
  obtain j where "steps w1 \<le> j" "step_rc env j = SQLITE_DONE \<or> step_rc env j = SQLITE_ERROR"
    using fin by blast
  then obtain y where q: "query_rows env ctx (column_count env (prepares w1 - 1)) 0 r w1 = Some y"
    using query_rows_terminates by blast
  have "\<exists>y. query_loop env ctx statement b' (n + 1) r' w2 = Some y" for b' r' w2
    using Suc.hyps(2) by (intro Suc.hyps(1)) simp
  with p q show ?case
    by (subst query_loop.simps)
       (auto simp: query_finish_def Let_def split: prod.splits rows_exit.splits sum.splits)
qed

text \<open>
  A query that compiles at once and gives \<open>n\<close> rows returns the last row, or NULL when
  there is none.
\<close>

lemma query_returns_last_row:
  assumes "journal ctx \<noteq> None" and "prepare_rc env (prepares w) statement = SQLITE_OK"
      and "0 < column_count env (prepares w)" and "\<forall>k. alloc_ok env k"
      and "\<forall>i<n. step_rc env (steps w + i) = SQLITE_ROW"
      and "step_rc env (steps w + n) = SQLITE_DONE"
      and "\<forall>i<n. \<forall>c<column_count env (prepares w). column_text env (steps w + i) c \<noteq> None"
      and "finalize_rc env (finalizes w) \<noteq> SQLITE_SCHEMA"
  shows "\<exists>w'. csync_journal_query env ctx statement w
               = Some ((if n = 0 then None
                        else Some \<lparr>vector = map (\<lambda>c. the (column_text env (steps w + n - 1) c))
                                              [0..<column_count env (prepares w)],
                                   strlist_size = column_count env (prepares w)\<rparr>), w')"
proof -
  let ?w1 = "w\<lparr>prepares := Suc (prepares w)\<rparr>"
  have p: "prepare_busy env ctx statement 0 w = (SQLITE_OK, 0, ?w1)"
    using assms(1,2) by (subst prepare_busy_stop) (auto simp: sqlite3_prepare_def)
  have "\<exists>w'. query_rows env ctx (column_count env (prepares w)) 0 None ?w1
               = Some (LoopEnd SQLITE_DONE 0
                        (if n = 0 then None
                         else Some \<lparr>vector = map (\<lambda>c. the (column_text env (steps ?w1 + n - 1) c))
                                               [0..<column_count env (prepares w)],
                                    strlist_size = column_count env (prepares w)\<rparr>), w')
               \<and> steps w' = steps ?w1 + n + 1"
    using assms(3-7) by (intro query_rows_rows) simp_all
  then obtain w2 where q: "query_rows env ctx (column_count env (prepares w)) 0 None ?w1
               = Some (LoopEnd SQLITE_DONE 0
                        (if n = 0 then None
                         else Some \<lparr>vector = map (\<lambda>c. the (column_text env (steps w + n - 1) c))
                                               [0..<column_count env (prepares w)],
                                    strlist_size = column_count env (prepares w)\<rparr>), w2)"
    by auto
  from query_rows_frame [OF q] have "finalizes w2 = finalizes w" by simp
  with assms(8) show ?thesis
    using p q
    by (subst csync_journal_query_def, subst query_loop.simps)
       (simp add: query_finish_def sqlite3_finalize_def)
qed


subsection \<open>csync_journal_check and csync_journal_load\<close>

text \<open>
  The check makes no allocation and runs no statement; when it returns 0 there is a file at
  the journal path; and a readable file without the header is unlinked and made anew.
\<close>

lemma check_counters:
  "allocs (snd (csync_journal_check env path w)) = allocs w
   \<and> prepares (snd (csync_journal_check env path w)) = prepares w
   \<and> steps (snd (csync_journal_check env path w)) = steps w"
  by (simp add: csync_journal_check_def create_database_def calls Let_def split: option.splits)

lemma check_ok_file:
  "0 \<le> fst (csync_journal_check env path w) \<Longrightarrow>
     files (snd (csync_journal_check env path w)) path \<noteq> None"
  by (auto simp: csync_journal_check_def create_database_def calls Let_def
      split: option.splits if_splits)

lemma check_bad_header:
  assumes "files w path = Some bytes" and "open_ok env path" and "read_ok env path"
      and "header_string bytes \<noteq> ''SQLite format 3''"
      and "unlink_ok env path" and "open_rc env path None = SQLITE_OK"
  shows "csync_journal_check env path w
         = (0, w\<lparr>unlinks := unlinks w @ [path], files := (files w)(path \<mapsto> [])\<rparr>)"
  using assms by (simp add: csync_journal_check_def create_database_def calls)

text \<open>A probe that never compiles: the query gives the empty list of \<open>c_strlist_new(1)\<close>.\<close>

lemma prepare_busy_never_ok:
  assumes "\<forall>k. prepare_rc env k statement \<noteq> SQLITE_OK"
  shows "fst (prepare_busy env ctx statement b w) \<noteq> SQLITE_OK"
proof (induction "120 - b" arbitrary: b w)
  case 0
  then show ?case using assms by (simp add: prepare_busy_stop calls)
next
  case (Suc d)
  show ?case
  proof (cases "fst (sqlite3_prepare env ctx statement w) = SQLITE_BUSY \<and> b < 120")
    case True
    moreover have "d = 120 - Suc b" using Suc.hyps(2) by simp
    ultimately show ?thesis using Suc.hyps(1) by (simp add: prepare_busy_again)
  next
    case False
    then show ?thesis using assms by (auto simp: prepare_busy_stop calls)
  qed
qed

lemma query_not_compiled:
  assumes "\<forall>k. prepare_rc env k statement \<noteq> SQLITE_OK" and "alloc_ok env (allocs w)"
  shows "\<exists>w'. csync_journal_query env ctx statement w
               = Some (Some \<lparr>vector = [], strlist_size = 1\<rparr>, w')
             \<and> files w' = files w \<and> unlinks w' = unlinks w"
proof -
  obtain err b1 w1 where p: "prepare_busy env ctx statement 0 w = (err, b1, w1)"
    by (metis prod_cases3)
  with prepare_busy_never_ok [OF assms(1), of ctx 0 w] have "err \<noteq> SQLITE_OK" by simp
  moreover from prepare_busy_frame [OF p]
  have "allocs w1 = allocs w" "files w1 = files w" "unlinks w1 = unlinks w"
    by simp_all
  ultimately show ?thesis
    using p assms(2)
    by (subst csync_journal_query_def, subst query_loop.simps) (simp add: c_strlist_new_def)
qed

text \<open>The load, when it gets as far as the probe and the probe never compiles.\<close>

lemma load_probe_not_compiled:
  assumes "0 \<le> fst (csync_journal_check env path w)"
      and "alloc_ok env (allocs w)"
      and "copy_ok env path (path @ ''.ctmp'')"
      and "open_rc env (path @ ''.ctmp'') (files (snd (csync_journal_check env path w)) path)
           = SQLITE_OK"
      and "\<forall>k. prepare_rc env k ''SELECT COUNT(key) FROM metadata LIMIT 1 OFFSET 0;'' \<noteq> SQLITE_OK"
      and "alloc_ok env (Suc (allocs w))"
  shows "\<exists>w'. csync_journal_load env ctx path w
               = Some (0, ctx\<lparr>journal := Some (path @ ''.ctmp''), journal_exists := 0\<rparr>, w')
             \<and> files w' = (files (snd (csync_journal_check env path w)))
                            (path @ ''.ctmp'' := files (snd (csync_journal_check env path w)) path)
             \<and> unlinks w' = unlinks (snd (csync_journal_check env path w))"
proof -
  obtain rc0 w1 where c: "csync_journal_check env path w = (rc0, w1)" by (metis surj_pair)
  with assms(1) have rc0: "\<not> rc0 < 0" by simp
  from c check_counters [of env path w] have a1: "allocs w1 = allocs w" by simp
  from c check_ok_file [OF assms(1)] obtain bytes where f: "files w1 path = Some bytes" by auto
  let ?w2 = "w1\<lparr>allocs := allocs w1 + 1\<rparr>"
  let ?w3 = "?w2\<lparr>files := (files ?w2)(path @ ''.ctmp'' \<mapsto> bytes)\<rparr>"
  have cp: "c_copy env path (path @ ''.ctmp'') ?w2 = (0, ?w3)"
    using f assms(3) by (simp add: c_copy_def)
  have op: "sqlite3_open env (path @ ''.ctmp'') ?w3 = (SQLITE_OK, ?w3)"
    using assms(4) c f by (simp add: sqlite3_open_def)
  have "alloc_ok env (allocs ?w3)" using assms(6) a1 by simp
  from query_not_compiled [OF assms(5) this]
  obtain w' where q: "csync_journal_query env (ctx\<lparr>journal := Some (path @ ''.ctmp'')\<rparr>)
        ''SELECT COUNT(key) FROM metadata LIMIT 1 OFFSET 0;'' ?w3
      = Some (Some \<lparr>vector = [], strlist_size = 1\<rparr>, w')" and fw: "files w' = files ?w3"
    and uw: "unlinks w' = unlinks ?w3"
    by blast
  have "csync_journal_load env ctx path w
        = Some (0, ctx\<lparr>journal := Some (path @ ''.ctmp''), journal_exists := 0\<rparr>, w')"
    using c rc0 a1 assms(2) cp op q
    by (simp add: csync_journal_load_def journal_load_body_def csync_journal_is_empty_def Let_def)
  moreover have "files w' = (files w1)(path @ ''.ctmp'' := files w1 path)"
    using fw f by simp
  moreover have "unlinks w' = unlinks w1"
    using uw by simp
  ultimately show ?thesis using c by simp
qed

text \<open>The return value of the load and the handle it leaves in the context.\<close>

lemma sidecar_differs: "path @ ''.ctmp'' \<noteq> path"
  by simp

lemma load_handle:
  assumes "csync_journal_load env ctx path w = Some (rc, ctx', w')"
  shows "rc = 0
         \<and> journal ctx' = (if 0 \<le> fst (csync_journal_check env path w) \<and> alloc_ok env (allocs w)
                               \<and> copy_ok env path (path @ ''.ctmp'')
                            then Some (path @ ''.ctmp'') else journal ctx)"
proof -
  obtain rc0 w1 where c: "csync_journal_check env path w = (rc0, w1)" by (metis surj_pair)
  from c check_counters [of env path w] have a1: "allocs w1 = allocs w" by simp
  show ?thesis
  proof (cases "0 \<le> rc0")
    case True
    with c check_ok_file [of env path w] obtain bytes where f: "files w1 path = Some bytes"
      by auto
    show ?thesis
      using assms c a1 f True
      by (auto simp: csync_journal_load_def journal_load_body_def c_copy_def sqlite3_open_def
            Let_def split: if_splits option.splits prod.splits)
  next
    case False
    then show ?thesis
      using assms c
      by (auto simp: csync_journal_load_def journal_load_body_def Let_def)
  qed
qed

subsection \<open>What csync_journal_load returns\<close>

text \<open>
  C1: csync_journal_load should return a non-zero result exactly when the copy to the
  sidecar or the opening of the sidecar fails.  The function sets its local \<open>rc\<close> to -1 at
  each of these failures and jumps to \<open>out\<close>, where it ends with \<open>return 0\<close>: the value of
  \<open>rc\<close> is never returned.  In the first environment c_copy fails, in the second
  sqlite3_open of the sidecar; csync_journal_load returns 0 in both.
\<close>

theorem load_returns_zero_on_failure:
  "map_option fst (csync_journal_load env_copy_fails ctx0 ''journal.db'' world0) = Some 0
   \<and> fst (c_copy env_copy_fails ''journal.db'' ''journal.db.ctmp''
            (snd (csync_journal_check env_copy_fails ''journal.db'' world0))) = - 1
   \<and> map_option fst (csync_journal_load env_sidecar_open_fails ctx0 ''journal.db'' world0) = Some 0
   \<and> fst (sqlite3_open env_sidecar_open_fails ''journal.db.ctmp''
            (snd (c_copy env_sidecar_open_fails ''journal.db'' ''journal.db.ctmp''
                   (snd (csync_journal_check env_sidecar_open_fails ''journal.db'' world0)))))
       = SQLITE_ERROR"
  by (simp add: journal_defs examples calls Let_def prepare_busy.simps query_loop.simps query_rows.simps)

subsection \<open>The rows of a query\<close>

text \<open>
  C2: a query whose statement gives \<open>N\<close> rows should return all \<open>N\<close> rows.  The row loop
  assigns a new list of \<open>column_count\<close> strings to \<open>result\<close> for every row, and the list of
  the row before is dropped without being freed, so the result holds the last row only.
  Here the statement gives the rows \<open>first\<close> and \<open>second\<close>: three steps are made and the
  result is the list holding \<open>second\<close> alone.
\<close>

theorem query_keeps_last_row_only:
  "map_option fst (csync_journal_query env_two_rows ctx_open ''SELECT path FROM metadata;'' world0)
     = Some (Some \<lparr>vector = [''second''], strlist_size = 1\<rparr>)
   \<and> map_option (steps \<circ> snd)
        (csync_journal_query env_two_rows ctx_open ''SELECT path FROM metadata;'' world0) = Some 3"
  by (simp add: journal_defs examples calls Let_def prepare_busy.simps query_loop.simps query_rows.simps)

subsection \<open>A locked database\<close>

text \<open>
  C4: on a locked database both functions should try again at most 120 times in the prepare
  loop and at most 120 times in the row loop, 100 msec apart, and then give up.  The prepare
  loop goes on while \<open>busy_count++ < 120\<close>: 121 calls and 120 sleeps.  The row loop stops
  when \<open>busy_count++ > 120\<close>: 122 steps and 121 sleeps, one retry more than 120.  Both
  functions do give up, and the query then returns the empty list of \<open>c_strlist_new(1)\<close>.
\<close>

theorem row_loop_retries_121_times:
  "map_option (\<lambda>(r, w). (r, prepares w, steps w, slept w))
     (csync_journal_query env_step_busy ctx_open ''SELECT path FROM metadata;'' world0)
     = Some (Some \<lparr>vector = [], strlist_size = 1\<rparr>, 1, 122, 121 * 100000)
   \<and> map_option (\<lambda>(r, w). (prepares w, steps w, slept w))
     (csync_journal_insert env_step_busy ctx_open ''DELETE FROM metadata;'' world0)
     = Some (1, 122, 121 * 100000)
   \<and> map_option (\<lambda>(r, w). (r, prepares w, steps w, slept w))
     (csync_journal_query env_prepare_busy ctx_open ''SELECT path FROM metadata;'' world0)
     = Some (Some \<lparr>vector = [], strlist_size = 1\<rparr>, 121, 0, 120 * 100000)
   \<and> map_option (\<lambda>(r, w). (prepares w, steps w, slept w))
     (csync_journal_insert env_prepare_busy ctx_open ''DELETE FROM metadata;'' world0)
     = Some (121, 0, 120 * 100000)"
  by (simp add: journal_defs examples calls query_loop.simps query_rows.simps
      insert_loop.simps insert_rows.simps prepare_busy.simps Let_def)

subsection \<open>A journal without the SQLite header\<close>

text \<open>
  C5: let the journal file be there and readable and let it not start with the SQLite header
  (the string in the first 16 bytes is not \<open>SQLite format 3\<close>).  Provided the calls that the
  load depends on succeed (unlink, the creation of the fresh database, the two allocations,
  c_copy and the opening of the sidecar) and the probe does not compile on the fresh
  database, which has no metadata table, csync_journal_load unlinks the file, returns 0 with
  \<open>journal_exists = 0\<close> and the connection on the sidecar, and leaves an empty fresh database
  at the journal path and its copy at the sidecar path.
\<close>

theorem load_replaces_corrupt_journal:
  assumes "files w path = Some bytes" and "open_ok env path" and "read_ok env path"
      and "header_string bytes \<noteq> ''SQLite format 3''"
      and "unlink_ok env path" and "open_rc env path None = SQLITE_OK"
      and "alloc_ok env (allocs w)" and "alloc_ok env (Suc (allocs w))"
      and "copy_ok env path (path @ ''.ctmp'')"
      and "open_rc env (path @ ''.ctmp'') (Some []) = SQLITE_OK"
      and "\<forall>k. prepare_rc env k ''SELECT COUNT(key) FROM metadata LIMIT 1 OFFSET 0;'' \<noteq> SQLITE_OK"
  shows "\<exists>w'. csync_journal_load env ctx path w
                 = Some (0, ctx\<lparr>journal := Some (path @ ''.ctmp''), journal_exists := 0\<rparr>, w')
             \<and> unlinks w' = unlinks w @ [path]
             \<and> files w' path = Some [] \<and> files w' (path @ ''.ctmp'') = Some []"
proof -
  have c: "csync_journal_check env path w
           = (0, w\<lparr>unlinks := unlinks w @ [path], files := (files w)(path \<mapsto> [])\<rparr>)"
    using assms(1-6) by (rule check_bad_header)
  from load_probe_not_compiled [of env path w, OF _ assms(7) assms(9) _ assms(11) assms(8), of ctx]
  obtain w' where "csync_journal_load env ctx path w
                    = Some (0, ctx\<lparr>journal := Some (path @ ''.ctmp''), journal_exists := 0\<rparr>, w')"
    and "files w' = ((files w)(path \<mapsto> []))(path @ ''.ctmp'' \<mapsto> [])"
    and "unlinks w' = unlinks w @ [path]"
    using c assms(10) by auto
  then show ?thesis by auto
qed

theorem load_replaces_corrupt_journal_witness:
  "files world_corrupt ''journal.db'' = Some ''garbage''
   \<and> (\<exists>w'. csync_journal_load env_no_table ctx0 ''journal.db'' world_corrupt
              = Some (0, \<lparr>journal = Some ''journal.db.ctmp'', journal_exists = 0\<rparr>, w')
          \<and> unlinks w' = [''journal.db'']
          \<and> files w' ''journal.db'' = Some [] \<and> files w' ''journal.db.ctmp'' = Some [])"
proof -
  have "files world_corrupt ''journal.db'' = Some ''garbage''"
    and "header_string ''garbage'' \<noteq> ''SQLite format 3''"
    by (simp_all add: examples header_string_def)
  moreover have "open_ok env_no_table ''journal.db''" and "read_ok env_no_table ''journal.db''"
    and "unlink_ok env_no_table ''journal.db''"
    and "open_rc env_no_table ''journal.db'' None = SQLITE_OK"
    and "alloc_ok env_no_table (allocs world_corrupt)"
    and "alloc_ok env_no_table (Suc (allocs world_corrupt))"
    and "copy_ok env_no_table ''journal.db'' (''journal.db'' @ ''.ctmp'')"
    and "open_rc env_no_table (''journal.db'' @ ''.ctmp'') (Some []) = SQLITE_OK"
    and "\<forall>k. prepare_rc env_no_table k ''SELECT COUNT(key) FROM metadata LIMIT 1 OFFSET 0;''
             \<noteq> SQLITE_OK"
    by (simp_all add: examples)
  ultimately show ?thesis
    using load_replaces_corrupt_journal
      [of world_corrupt "''journal.db''" "''garbage''" env_no_table ctx0]
    by (simp add: ctx0_def world_corrupt_def world0_def)
qed

subsection \<open>What csync_journal_insert returns\<close>




subsection \<open>The sidecar\<close>

text \<open>
  C9: after csync_journal_load has returned, on a context that did not hold a connection on
  the journal path before, the connection handle is the one opened on the sidecar
  \<open><journal>.ctmp\<close> whenever the check, the allocation of the sidecar name and the copy
  succeeded (otherwise the load left the handle as it was); it is never a connection on the
  journal path; and no csync_journal_query and no csync_journal_insert that returns changes
  the bytes of the file at the journal path.
\<close>

theorem load_keeps_original_untouched:
  assumes "csync_journal_load env ctx path w = Some (rc, ctx', w')"
      and "journal ctx \<noteq> Some path"
  shows "journal ctx' = (if 0 \<le> fst (csync_journal_check env path w) \<and> alloc_ok env (allocs w)
                             \<and> copy_ok env path (path @ ''.ctmp'')
                          then Some (path @ ''.ctmp'') else journal ctx)
         \<and> journal ctx' \<noteq> Some path
         \<and> (\<forall>statement r w''. csync_journal_query env ctx' statement w' = Some (r, w'')
               \<longrightarrow> files w'' path = files w' path)
         \<and> (\<forall>statement r w''. csync_journal_insert env ctx' statement w' = Some (r, w'')
               \<longrightarrow> files w'' path = files w' path)"
proof -
  have h: "journal ctx' = (if 0 \<le> fst (csync_journal_check env path w) \<and> alloc_ok env (allocs w)
                             \<and> copy_ok env path (path @ ''.ctmp'')
                          then Some (path @ ''.ctmp'') else journal ctx)"
    using load_handle [OF assms(1)] by simp
  with assms(2) have n: "journal ctx' \<noteq> Some path"
    by (simp split: if_splits)
  have q: "files w'' path = files w' path"
    if "csync_journal_query env ctx' statement w' = Some (r, w'')" for statement r w''
    using query_loop_frame [of env ctx' statement 0 0 None w' "(r, w'')"] that n
    by (simp add: csync_journal_query_def)
  have i: "files w'' path = files w' path"
    if "csync_journal_insert env ctx' statement w' = Some (r, w'')" for statement r w''
  proof (cases "statement = []")
    case True
    with that show ?thesis by (simp add: csync_journal_insert_def)
  next
    case False
    with that have "insert_loop env ctx' statement 0 0 w' = Some w''"
      by (auto simp: csync_journal_insert_def split: option.splits)
    from insert_loop_frame [OF this] n show ?thesis by simp
  qed
  from h n q i show ?thesis by blast
qed

theorem load_keeps_original_untouched_witness:
  "\<exists>ctx' w' r w''.
      csync_journal_load env_writing ctx0 ''journal.db'' world0 = Some (0, ctx', w')
      \<and> journal ctx' = Some ''journal.db.ctmp''
      \<and> csync_journal_insert env_writing ctx' ''INSERT INTO metadata VALUES (1);'' w' = Some (r, w'')
      \<and> files w'' ''journal.db'' = files w' ''journal.db''"
proof -
  have "\<exists>ctx' w'. csync_journal_load env_writing ctx0 ''journal.db'' world0 = Some (0, ctx', w')"
    by (simp add: journal_defs examples calls Let_def prepare_busy.simps
        query_loop.simps query_rows.simps)
  then obtain ctx' w' where
    l: "csync_journal_load env_writing ctx0 ''journal.db'' world0 = Some (0, ctx', w')"
    by blast
  have n: "journal ctx0 \<noteq> Some ''journal.db''"
    by (simp add: ctx0_def)
  have c: "0 \<le> fst (csync_journal_check env_writing ''journal.db'' world0)
           \<and> alloc_ok env_writing (allocs world0)
           \<and> copy_ok env_writing ''journal.db'' (''journal.db'' @ ''.ctmp'')"
    by (simp add: journal_defs examples calls)
  have "\<forall>i. \<exists>j\<ge>i. step_rc env_writing j = SQLITE_DONE \<or> step_rc env_writing j = SQLITE_ERROR"
    by (auto simp: examples)
  from insert_loop_terminates [OF this]
  obtain w'' where "insert_loop env_writing ctx' ''INSERT INTO metadata VALUES (1);'' 0 0 w' = Some w''"
    by blast
  then obtain r where
    i: "csync_journal_insert env_writing ctx' ''INSERT INTO metadata VALUES (1);'' w' = Some (r, w'')"
    by (simp add: csync_journal_insert_def)
  from load_keeps_original_untouched [OF l n] c i
  have "journal ctx' = Some ''journal.db.ctmp''"
    and "files w'' ''journal.db'' = files w' ''journal.db''"
    by auto
  with l i show ?thesis by blast
qed

subsection \<open>The journal-exists flag\<close>




section \<open>Properties of the command line client\<close>

subsection \<open>The password flag\<close>

text \<open>
  C3: after \<open>--password <pass>\<close> or \<open>-p <pass>\<close> the password used for authentication
  should be \<open><pass>\<close>.  The branch of parseOptions for \<open>-p\<close> assigns \<open>options->user\<close>, as
  the branch for \<open>-u\<close> above it does, though the usage text of \<open>help()\<close> says "Use [pass]
  as password".  On the command line \<open>owncloudcmd -p secret /home/u/docs http://host/\<close> the
  password option stays empty, the user name becomes \<open>secret\<close>, and main asks for the
  password at the prompt.
\<close>

theorem parseOptions_password_flag_sets_user:
  "parseOptions cmd_env_ok
     [''owncloudcmd'', ''-p'', ''secret'', ''/home/u/docs'', ''http://host/''] initial_options
   = Inr (initial_options\<lparr>target_url := ''owncloud://host/remote.php/webdav'',
                            source_dir := ''/home/u/docs'', user := ''secret''\<rparr>)
   \<and> password (initial_options\<lparr>target_url := ''owncloud://host/remote.php/webdav'',
                                source_dir := ''/home/u/docs'', user := ''secret''\<rparr>) = []
   \<and> credentials cmd_env_ok
         (initial_options\<lparr>target_url := ''owncloud://host/remote.php/webdav'',
                           source_dir := ''/home/u/docs'', user := ''secret''\<rparr>)
       = (''secret'', ''typed-password'')"
  by (simp add: parseOptions_def credentials_def cmd_env_ok_def initial_options_def
      startsWith_def endsWith_def)

subsection \<open>The proxy properties\<close>

lemma qsplit_no_sep: "sep \<notin> set s \<Longrightarrow> qsplit sep s = [s]"
  by (induction s) auto

lemma qsplit_append: "sep \<notin> set a \<Longrightarrow> qsplit sep (a @ sep # b) = a # qsplit sep b"
  by (induction a) (auto split: list.splits)

lemma qsplit_url:
  assumes "CHR '':'' \<notin> set scheme" "CHR '':'' \<notin> set host" "CHR '':'' \<notin> set port"
  shows "qsplit CHR '':'' (scheme @ ''://'' @ host @ '':'' @ port) = [scheme, ''//'' @ host, port]"
proof -
  have "qsplit CHR '':'' (scheme @ CHR '':'' # ((''//'' @ host) @ CHR '':'' # port))
        = scheme # qsplit CHR '':'' ((''//'' @ host) @ CHR '':'' # port)"
    using assms(1) by (rule qsplit_append)
  also have "qsplit CHR '':'' ((''//'' @ host) @ CHR '':'' # port)
             = (''//'' @ host) # qsplit CHR '':'' port"
    using assms(2) by (intro qsplit_append) simp
  also have "qsplit CHR '':'' port = [port]"
    using assms(3) by (rule qsplit_no_sep)
  finally show ?thesis by simp
qed

lemma props_type:
  "set_module_properties (proxy_properties p) props ''proxy_type''
     = (if length (qsplit CHR '':'' p) = 3
        then Some (PString ''HttpProxy'') else Some (PString ''NoProxy''))"
  by (simp add: set_module_properties_def proxy_properties_def isNull_def Let_def
      split: prod.splits)

lemma props_host:
  "set_module_properties (proxy_properties p) props ''proxy_host''
     = (if length (qsplit CHR '':'' p) = 3
        then Some (PString (if startsWith (qsplit CHR '':'' p ! 1) ''//''
                            then drop 2 (qsplit CHR '':'' p ! 1) else qsplit CHR '':'' p ! 1))
        else props ''proxy_host'')"
  by (simp add: set_module_properties_def proxy_properties_def isNull_def Let_def
      split: prod.splits)

lemma props_port:
  "set_module_properties (proxy_properties p) props ''proxy_port''
     = (if length (qsplit CHR '':'' p) = 3 \<and> snd (toInt (qsplit CHR '':'' p ! 2))
           \<and> fst (toInt (qsplit CHR '':'' p ! 2)) \<noteq> 0
        then Some (PInt (fst (toInt (qsplit CHR '':'' p ! 2))))
        else props ''proxy_port'')"
  by (simp add: set_module_properties_def proxy_properties_def isNull_def Let_def
      split: prod.splits)

text \<open>
  C7, as stated: a malformed or partly parseable proxy string gives \<open>proxy_type = NoProxy\<close>,
  with a host or port entry if the host parsed.  The string \<open>http://host:abc\<close>, whose port
  is no number, gives \<open>proxy_type = HttpProxy\<close> and the host, without a port.
\<close>

theorem proxy_unparsable_port_counterexample:
  "set_module_properties (proxy_properties ''http://host:abc'') Map.empty ''proxy_type''
     = Some (PString ''HttpProxy'')
   \<and> set_module_properties (proxy_properties ''http://host:abc'') Map.empty ''proxy_host''
     = Some (PString ''host'')
   \<and> set_module_properties (proxy_properties ''http://host:abc'') Map.empty ''proxy_port'' = None"
  by (simp add: set_module_properties_def proxy_properties_def startsWith_def toInt_def
      trimmed_def is_space_def is_digit_def isNull_def)

text \<open>
  C7, amended: what decides is the number of parts the proxy string has between colons.
  With exactly three parts \<open>proxy_type\<close> is \<open>HttpProxy\<close>, \<open>proxy_host\<close> is the second part
  without a leading \<open>//\<close>, and \<open>proxy_port\<close> is written only when the third part converts to
  an integer other than 0.  With any other number of parts \<open>proxy_type\<close> is \<open>NoProxy\<close> and
  neither \<open>proxy_host\<close> nor \<open>proxy_port\<close> is written.  In particular a string
  \<open>scheme://host:port\<close> whose three parts hold no colon gives \<open>HttpProxy\<close> and the host, and
  the port when it is a number other than 0.
\<close>

theorem proxy_properties_by_parts:
  "set_module_properties (proxy_properties p) props ''proxy_type''
     = (if length (qsplit CHR '':'' p) = 3
        then Some (PString ''HttpProxy'') else Some (PString ''NoProxy''))
   \<and> set_module_properties (proxy_properties p) props ''proxy_host''
     = (if length (qsplit CHR '':'' p) = 3
        then Some (PString (if startsWith (qsplit CHR '':'' p ! 1) ''//''
                            then drop 2 (qsplit CHR '':'' p ! 1) else qsplit CHR '':'' p ! 1))
        else props ''proxy_host'')
   \<and> set_module_properties (proxy_properties p) props ''proxy_port''
     = (if length (qsplit CHR '':'' p) = 3 \<and> snd (toInt (qsplit CHR '':'' p ! 2))
           \<and> fst (toInt (qsplit CHR '':'' p ! 2)) \<noteq> 0
        then Some (PInt (fst (toInt (qsplit CHR '':'' p ! 2))))
        else props ''proxy_port'')
   \<and> (CHR '':'' \<notin> set scheme \<and> CHR '':'' \<notin> set host \<and> CHR '':'' \<notin> set port \<longrightarrow>
        set_module_properties (proxy_properties (scheme @ ''://'' @ host @ '':'' @ port)) props
          ''proxy_type'' = Some (PString ''HttpProxy'')
      \<and> set_module_properties (proxy_properties (scheme @ ''://'' @ host @ '':'' @ port)) props
          ''proxy_host'' = Some (PString host)
      \<and> set_module_properties (proxy_properties (scheme @ ''://'' @ host @ '':'' @ port)) props
          ''proxy_port''
          = (if snd (toInt port) \<and> fst (toInt port) \<noteq> 0 then Some (PInt (fst (toInt port)))
             else props ''proxy_port''))"
proof -
  have wf: "qsplit CHR '':'' (scheme @ ''://'' @ host @ '':'' @ port)
            = [scheme, ''//'' @ host, port]"
    if "CHR '':'' \<notin> set scheme \<and> CHR '':'' \<notin> set host \<and> CHR '':'' \<notin> set port"
    using that by (intro qsplit_url) simp_all
  have url:
    "set_module_properties (proxy_properties (scheme @ ''://'' @ host @ '':'' @ port)) props
       ''proxy_type'' = Some (PString ''HttpProxy'')
     \<and> set_module_properties (proxy_properties (scheme @ ''://'' @ host @ '':'' @ port)) props
       ''proxy_host'' = Some (PString host)
     \<and> set_module_properties (proxy_properties (scheme @ ''://'' @ host @ '':'' @ port)) props
       ''proxy_port''
       = (if snd (toInt port) \<and> fst (toInt port) \<noteq> 0 then Some (PInt (fst (toInt port)))
          else props ''proxy_port'')"
    if h: "CHR '':'' \<notin> set scheme \<and> CHR '':'' \<notin> set host \<and> CHR '':'' \<notin> set port"
    unfolding props_type props_host props_port wf [OF h]
    by (simp add: startsWith_def)
  show ?thesis
    using url props_type props_host props_port by blast
qed

theorem proxy_properties_by_parts_witness:
  "set_module_properties (proxy_properties ''http://192.168.178.23:8080'') Map.empty ''proxy_type''
     = Some (PString ''HttpProxy'')
   \<and> set_module_properties (proxy_properties ''http://192.168.178.23:8080'') Map.empty ''proxy_host''
     = Some (PString ''192.168.178.23'')
   \<and> set_module_properties (proxy_properties ''http://192.168.178.23:8080'') Map.empty ''proxy_port''
     = Some (PInt 8080)"
proof -
  have t: "toInt ''8080'' = (8080, True)"
    by (simp add: toInt_def trimmed_def is_space_def is_digit_def digits_value_def)
  show ?thesis
    using proxy_properties_by_parts
      [of "''http://192.168.178.23:8080''" Map.empty "''http''" "''192.168.178.23''" "''8080''"]
    by (simp add: t startsWith_def)
qed

subsection \<open>The sync loop\<close>

lemma sync_passes_step:
  assumes "0 \<le> csync_create_rc e k" "0 \<le> ne_sock_init_rc e k" "0 \<le> csync_init_rc e k"
  shows "sync_passes e options k trace
         = (if isAnotherSyncNeeded e k
            then sync_passes e options (Suc k) (trace @ pass_events options k)
            else Some (Return 0, trace @ pass_events options k))"
  using assms by (subst sync_passes.simps) (simp add: pass_events_def Let_def)

lemma sync_passes_run:
  assumes "\<forall>j<N. isAnotherSyncNeeded e j" "\<not> isAnotherSyncNeeded e N"
      and "\<forall>j\<le>N. 0 \<le> csync_create_rc e j \<and> 0 \<le> ne_sock_init_rc e j \<and> 0 \<le> csync_init_rc e j"
      and "k \<le> N"
  shows "sync_passes e options k trace
         = Some (Return 0, trace @ concat (map (pass_events options) [k..<Suc N]))"
  using assms(4)
proof (induction "N - k" arbitrary: k trace)
  case 0
  then have "k = N" by simp
  then show ?case using assms(2,3) by (simp add: sync_passes_step)
next
  case (Suc d)
  then have lt: "k < N" and d: "d = N - Suc k" and le: "Suc k \<le> N" by simp_all
  have "sync_passes e options k trace = sync_passes e options (Suc k) (trace @ pass_events options k)"
    using assms(1,3) lt by (simp add: sync_passes_step)
  also have "\<dots> = Some (Return 0, (trace @ pass_events options k) @ concat (map (pass_events options) [Suc k..<Suc N]))"
    using Suc.hyps(1) [OF d le] .
  also have "[k..<Suc N] = k # [Suc k..<Suc N]"
    using lt by (simp add: upt_conv_Cons)
  then have "(trace @ pass_events options k) @ concat (map (pass_events options) [Suc k..<Suc N])
             = trace @ concat (map (pass_events options) [k..<Suc N])"
    by simp
  finally show ?case .
qed

lemma created_contexts_append: "created_contexts (xs @ ys) = created_contexts xs @ created_contexts ys"
  by (induction xs rule: created_contexts.induct) simp_all

lemma journal_instances_append: "journal_instances (xs @ ys) = journal_instances xs @ journal_instances ys"
  by (induction xs rule: journal_instances.induct) simp_all

lemma created_contexts_props: "created_contexts (map (\<lambda>(key, v). SetModuleProperty k key v) kvs) = []"
  by (induction kvs) auto

lemma journal_instances_props: "journal_instances (map (\<lambda>(key, v). SetModuleProperty k key v) kvs) = []"
  by (induction kvs) auto

lemma created_contexts_pass: "created_contexts (pass_events options k) = [k]"
  by (simp add: pass_events_def configure_def run_pass_def created_contexts_append
      created_contexts_props split: option.splits)

lemma journal_instances_pass: "journal_instances (pass_events options k) = [k]"
  by (simp add: pass_events_def configure_def run_pass_def journal_instances_append
      journal_instances_props split: option.splits)

lemma created_contexts_passes:
  "created_contexts (concat (map (pass_events options) ks)) = ks"
  by (induction ks) (simp_all add: created_contexts_append created_contexts_pass)

lemma journal_instances_passes:
  "journal_instances (concat (map (pass_events options) ks)) = ks"
  by (induction ks) (simp_all add: journal_instances_append journal_instances_pass)

lemma created_contexts_mem: "CsyncCreate k \<in> set xs \<Longrightarrow> k \<in> set (created_contexts xs)"
  by (induction xs rule: created_contexts.induct) auto

lemma pass_events_ends:
  "\<exists>body. pass_events options k
     = CsyncCreate k # body @ [CsyncDestroy k, NeSockExit, DeleteSyncEngine k, DeleteSyncJournalDb k]
     \<and> created_contexts body = []"
proof -
  let ?body = "[NeSockInit, SetLogLevel (if silent options then 1 else 11),
      SyncContextPreInit k, CsyncInit k] @ configure options k
      @ [SyncContextPreStart k, NewSyncJournalDb k, NewSyncEngine k, StartSync k]"
  have "pass_events options k
     = CsyncCreate k # ?body @ [CsyncDestroy k, NeSockExit, DeleteSyncEngine k, DeleteSyncJournalDb k]"
    by (simp add: pass_events_def run_pass_def)
  moreover have "created_contexts ?body = []"
    by (simp add: configure_def created_contexts_append created_contexts_props split: option.splits)
  ultimately show ?thesis by blast
qed

lemma passes_order:
  assumes "k < N"
  shows "\<exists>pre post. concat (map (pass_events options) [0..<Suc N])
           = pre @ [CsyncDestroy k, NeSockExit, DeleteSyncEngine k, DeleteSyncJournalDb k,
                    CsyncCreate (Suc k)] @ post
         \<and> CsyncCreate (Suc k) \<notin> set pre"
proof -
  obtain body where b: "pass_events options k
     = CsyncCreate k # body @ [CsyncDestroy k, NeSockExit, DeleteSyncEngine k, DeleteSyncJournalDb k]"
     and cb: "created_contexts body = []"
    using pass_events_ends by blast
  obtain body' where b': "pass_events options (Suc k) = CsyncCreate (Suc k) # body'"
    using pass_events_ends [of options "Suc k"] by auto
  have split: "[0..<Suc N] = [0..<k] @ k # Suc k # [Suc (Suc k)..<Suc N]"
    using assms by (metis Suc_less_eq Suc_lessD le0 upt_add_eq_append upt_conv_Cons le_add_diff_inverse less_imp_le_nat)
  let ?pre = "concat (map (pass_events options) [0..<k]) @ CsyncCreate k # body"
  let ?post = "body' @ concat (map (pass_events options) [Suc (Suc k)..<Suc N])"
  have eq: "concat (map (pass_events options) [0..<Suc N])
      = ?pre @ [CsyncDestroy k, NeSockExit, DeleteSyncEngine k, DeleteSyncJournalDb k,
                    CsyncCreate (Suc k)] @ ?post"
    unfolding split by (simp add: b b')
  have "created_contexts ?pre = [0..<k] @ [k]"
    by (simp add: created_contexts_append created_contexts_passes cb)
  then have "Suc k \<notin> set (created_contexts ?pre)" by simp
  then have "CsyncCreate (Suc k) \<notin> set ?pre"
    using created_contexts_mem by blast
  with eq show ?thesis by blast
qed

text \<open>
  C6: if the engine asks for another sync after each of the first \<open>N\<close> passes and not after
  the next, and csync_create, ne_sock_init and csync_init succeed in these passes, main
  returns 0 after exactly \<open>N + 1\<close> passes.  Its calls are those of the passes
  \<open>0, \<dots>, N\<close> one after the other; each pass makes a context of its own by csync_create and
  a \<open>SyncJournalDb\<close> of its own; and the context of pass \<open>k + 1\<close> is made right after the
  context of pass \<open>k\<close> was destroyed, the socket library stopped and the engine and journal
  objects of pass \<open>k\<close> deleted, and not before.
\<close>

theorem sync_passes_repeat:
  assumes "\<forall>k<N. isAnotherSyncNeeded e k" and "\<not> isAnotherSyncNeeded e N"
      and "\<forall>k\<le>N. 0 \<le> csync_create_rc e k \<and> 0 \<le> ne_sock_init_rc e k \<and> 0 \<le> csync_init_rc e k"
  shows "\<exists>trace. sync_passes e options 0 [] = Some (Return 0, trace)
           \<and> trace = concat (map (pass_events options) [0..<Suc N])
           \<and> created_contexts trace = [0..<Suc N]
           \<and> journal_instances trace = [0..<Suc N]
           \<and> (\<forall>k<N. \<exists>pre post.
                 trace = pre @ [CsyncDestroy k, NeSockExit, DeleteSyncEngine k,
                                DeleteSyncJournalDb k, CsyncCreate (Suc k)] @ post
                 \<and> CsyncCreate (Suc k) \<notin> set pre)"
proof -
  have "sync_passes e options 0 []
        = Some (Return 0, [] @ concat (map (pass_events options) [0..<Suc N]))"
    using assms by (intro sync_passes_run) simp_all
  then show ?thesis
    using passes_order [of _ N options]
    by (simp add: created_contexts_passes journal_instances_passes del: upt_Suc)
qed

theorem sync_passes_repeat_witness:
  "\<exists>trace. sync_passes cmd_env_repeat2 initial_options 0 [] = Some (Return 0, trace)
     \<and> created_contexts trace = [0, 1, 2] \<and> journal_instances trace = [0, 1, 2]"
proof -
  have h1: "\<forall>k<2. isAnotherSyncNeeded cmd_env_repeat2 k"
    and h2: "\<not> isAnotherSyncNeeded cmd_env_repeat2 2"
    and h3: "\<forall>k\<le>2. 0 \<le> csync_create_rc cmd_env_repeat2 k
               \<and> 0 \<le> ne_sock_init_rc cmd_env_repeat2 k \<and> 0 \<le> csync_init_rc cmd_env_repeat2 k"
    by (simp_all add: cmd_env_repeat2_def cmd_env_ok_def)
  from sync_passes_repeat [OF h1 h2 h3, of initial_options]
  obtain trace where "sync_passes cmd_env_repeat2 initial_options 0 [] = Some (Return 0, trace)"
     and "created_contexts trace = [0..<Suc 2]" and "journal_instances trace = [0..<Suc 2]"
    by blast
  then show ?thesis by (simp add: upt_rec)
qed

end
